theory Spec2Isabelle
  imports Main
begin

section \<open>Values of the Go program\<close>

text \<open>
  \<^verbatim>\<open>time.Duration\<close> is a count of nanoseconds. No function of the package does
  arithmetic on a duration (they are compared, logged and handed on), so the
  count is an integer.
\<close>

type_synonym duration = int

text \<open>
  Error values. The first three are the sentinels of the standard library that
  the code can meet (\<^verbatim>\<open>context.DeadlineExceeded\<close>, \<^verbatim>\<open>context.Canceled\<close>, and the
  error \<^verbatim>\<open>database/sql\<close> gives on a closed handle, "sql: database is closed");
  \<open>StoreError\<close> is any error reported by the driver or the data store, with its
  message; \<open>DialError err\<close> is the \<^verbatim>\<open>*net.OpError\<close> of a dial that the context ended
  with \<open>err\<close> ("dial tcp ...: i/o timeout" for a deadline): another value than the
  sentinel, in whose chain \<^verbatim>\<open>errors.Is\<close> finds the sentinel; \<open>Errorf prefix err\<close> is
  the value of \<^verbatim>\<open>fmt.Errorf(prefix + "%w", err)\<close>: a new error that wraps \<open>err\<close>.
\<close>

datatype go_error =
    DeadlineExceeded
  | Canceled
  | ErrDBClosed
  | StoreError string
  | DialError go_error
  | Errorf string go_error

text \<open>\<^verbatim>\<open>errors.Is\<close>: whether the target is found in the chain of an error.\<close>

fun errors_Is :: "go_error \<Rightarrow> go_error \<Rightarrow> bool" where
  "errors_Is (Errorf prefix err) target =
     (Errorf prefix err = target \<or> errors_Is err target)"
| "errors_Is (DialError err) target =
     (DialError err = target \<or> errors_Is err target)"
| "errors_Is err target = (err = target)"

text \<open>A panic of the Go runtime ends the program; it is not an error value.\<close>

datatype panic = NilPointerDereference | NegativeWaitGroupCounter

text \<open>
  What the program writes: \<^verbatim>\<open>log.Printf(format, args...)\<close> and \<^verbatim>\<open>fmt.Println(s)\<close>.
  A line is kept as its format and its arguments.
\<close>

datatype log_arg = ArgInt int | ArgDuration duration | ArgError go_error

datatype log_line = Printf string "log_arg list" | Println string

section \<open>The standard library, as far as the package uses it\<close>

subsection \<open>Contexts\<close>

text \<open>
  A \<^verbatim>\<open>context.Context\<close> is described by when it will be done, counted from the
  moment of the call that receives it: at its deadline (if it has one), or when
  its owner cancels it (if ever). \<^verbatim>\<open>context.Background()\<close> has neither.
  \<^verbatim>\<open>context.WithTimeout(parent, d)\<close> has the deadline \<open>d\<close> from now, unless the
  parent's own deadline is earlier. The cancel function it returns is deferred
  by the caller and runs after the query call has returned.
\<close>

record go_context =
  ctx_deadline :: "duration option"
  ctx_cancelled_after :: "duration option"

definition Background :: go_context where
  "Background = \<lparr>ctx_deadline = None, ctx_cancelled_after = None\<rparr>"

definition WithTimeout :: "go_context \<Rightarrow> duration \<Rightarrow> go_context" where
  "WithTimeout parent d =
     parent\<lparr>ctx_deadline :=
       Some (case ctx_deadline parent of None \<Rightarrow> d | Some d0 \<Rightarrow> min d0 d)\<rparr>"

text \<open>
  When \<^verbatim>\<open>ctx.Done()\<close> is closed, and what \<^verbatim>\<open>ctx.Err()\<close> is from then on. Where the
  deadline and the cancellation fall on the same instant the cancellation is
  taken, so that \<open>DeadlineExceeded\<close> is only reported for a deadline that came
  strictly first.
\<close>

definition ctx_done :: "go_context \<Rightarrow> (duration \<times> go_error) option" where
  "ctx_done c =
     (case ctx_deadline c of
        None \<Rightarrow> (case ctx_cancelled_after c of
                   None \<Rightarrow> None
                 | Some t \<Rightarrow> Some (t, Canceled))
      | Some d \<Rightarrow> (case ctx_cancelled_after c of
                   None \<Rightarrow> Some (d, DeadlineExceeded)
                 | Some t \<Rightarrow> if d < t then Some (d, DeadlineExceeded)
                            else Some (t, Canceled)))"

subsection \<open>The handle of \<^verbatim>\<open>database/sql\<close>\<close>

text \<open>\<^verbatim>\<open>sql.DBStats\<close>, the counters that \<^verbatim>\<open>DB.Stats()\<close> reads.\<close>

record DBStats =
  MaxOpenConnections :: int
  OpenConnections :: int
  InUse :: int
  Idle :: int
  WaitCount :: int
  WaitDuration :: duration
  MaxIdleClosed :: int
  MaxIdleTimeClosed :: int
  MaxLifetimeClosed :: int

text \<open>
  A \<^verbatim>\<open>*sql.DB\<close>. Of the handle's state this development keeps what the package
  itself decides: the driver and the data source name it was opened with, the
  argument of the last call of each of the four setters (\<open>None\<close>: never called),
  and whether \<^verbatim>\<open>Close\<close> has been called. The connection counters are maintained
  inside the library; the package only reads them.
\<close>

record sql_DB =
  driverName :: string
  dataSourceName :: string
  maxOpenConns_set :: "int option"
  maxIdleConns_set :: "int option"
  connMaxLifetime_set :: "duration option"
  connMaxIdleTime_set :: "duration option"
  closed :: bool
  counters :: DBStats

definition SetMaxOpenConns :: "int \<Rightarrow> sql_DB \<Rightarrow> sql_DB" where
  "SetMaxOpenConns n db = db\<lparr>maxOpenConns_set := Some n\<rparr>"

definition SetMaxIdleConns :: "int \<Rightarrow> sql_DB \<Rightarrow> sql_DB" where
  "SetMaxIdleConns n db = db\<lparr>maxIdleConns_set := Some n\<rparr>"

definition SetConnMaxLifetime :: "duration \<Rightarrow> sql_DB \<Rightarrow> sql_DB" where
  "SetConnMaxLifetime d db = db\<lparr>connMaxLifetime_set := Some d\<rparr>"

definition SetConnMaxIdleTime :: "duration \<Rightarrow> sql_DB \<Rightarrow> sql_DB" where
  "SetConnMaxIdleTime d db = db\<lparr>connMaxIdleTime_set := Some d\<rparr>"

definition Stats :: "sql_DB \<Rightarrow> DBStats" where
  "Stats db = counters db"

text \<open>
  What happens to one query call, as the surroundings decide it: how long the
  call waits in the pool for a free connection; how long the driver then takes
  to set up a new connection (0 when an idle one is reused) and whether that
  fails, with the message of the error; after how long the store's answer to
  the query arrives on the connection, and whether the answer is a result
  (\<open>None\<close>) or an error of the store or the driver, with its message. A store is
  asked with the query text and its parameter; the parameter of the package's
  only query is \<^verbatim>\<open>queryDuration.Seconds()\<close>, kept here as the duration.
\<close>

record store_reply =
  pool_wait :: duration
  dial_time :: duration
  dial_err :: "string option"
  reply_after :: duration
  reply_err :: "string option"

type_synonym store = "string \<Rightarrow> duration \<Rightarrow> store_reply"

text \<open>
  \<^verbatim>\<open>DB.QueryContext(ctx, query, arg)\<close> against a store, with the MySQL driver. A
  closed handle refuses the call, before anything else. A context that is
  already done, or is done while the call waits for a free connection, ends the
  call with \<^verbatim>\<open>ctx.Err()\<close>. A context that is done while the driver dials ends the
  dial, and the call returns the error of the dial, which is not \<^verbatim>\<open>ctx.Err()\<close>. A
  dial that fails returns its error. On the connection, a context that is done
  strictly before the store's answer arrives ends the call with \<^verbatim>\<open>ctx.Err()\<close>;
  otherwise the store's answer is returned (only the error of the answer is
  modelled: the package drops the rows).
\<close>

definition DB_QueryContext ::
  "store \<Rightarrow> sql_DB \<Rightarrow> go_context \<Rightarrow> string \<Rightarrow> duration \<Rightarrow> go_error option" where
  "DB_QueryContext st db ctx query arg =
     (let r = st query arg;
          connected = (case dial_err r of
                         Some msg \<Rightarrow> Some (StoreError msg)
                       | None \<Rightarrow> map_option StoreError (reply_err r))
      in if closed db then Some ErrDBClosed
         else case ctx_done ctx of
                None \<Rightarrow> connected
              | Some (t, e) \<Rightarrow>
                  if t \<le> 0 \<or> t < pool_wait r then Some e
                  else if t < pool_wait r + dial_time r then Some (DialError e)
                  else if dial_err r = None \<and> t < pool_wait r + dial_time r + reply_after r
                  then Some e
                  else connected)"

section \<open>Package \<^verbatim>\<open>db_connection\<close>: \<^verbatim>\<open>pool.go\<close>\<close>

text \<open>
  The state the functions work on: the handles that exist, by address
  (\<^verbatim>\<open>sql.Open\<close> puts a new handle at the end), and the lines written so far.
  A \<^verbatim>\<open>DBPool\<close> holds the address of its handle; an address that holds no handle
  stands for a nil pointer, and a call through it panics.
\<close>

record world =
  handles :: "sql_DB list"
  logged :: "log_line list"

record DBPool =
  DB :: nat

record PoolConfig =
  MaxOpenConns :: int
  MaxIdleConns :: int
  ConnMaxLifetime :: duration
  ConnMaxIdleTime :: duration

definition emit :: "log_line \<Rightarrow> world \<Rightarrow> world" where
  "emit l w = w\<lparr>logged := logged w @ [l]\<rparr>"

definition handle_of :: "world \<Rightarrow> DBPool \<Rightarrow> sql_DB option" where
  "handle_of w p = (if DB p < length (handles w) then Some (handles w ! DB p) else None)"

definition update_handle :: "nat \<Rightarrow> (sql_DB \<Rightarrow> sql_DB) \<Rightarrow> world \<Rightarrow> world" where
  "update_handle a f w = w\<lparr>handles := (handles w)[a := f (handles w ! a)]\<rparr>"

text \<open>
  \<^verbatim>\<open>sql.Open(driverName, dsn)\<close>: the driver checks the data source name (the
  first argument is that check: \<open>None\<close>, or the message of its error); no
  connection is made yet. The new handle has no limit set and is open.
\<close>

definition zero_stats :: DBStats where
  "zero_stats = \<lparr>MaxOpenConnections = 0, OpenConnections = 0, InUse = 0, Idle = 0,
     WaitCount = 0, WaitDuration = 0, MaxIdleClosed = 0, MaxIdleTimeClosed = 0,
     MaxLifetimeClosed = 0\<rparr>"

definition new_handle :: "string \<Rightarrow> string \<Rightarrow> sql_DB" where
  "new_handle drv dsn = \<lparr>driverName = drv, dataSourceName = dsn, maxOpenConns_set = None,
     maxIdleConns_set = None, connMaxLifetime_set = None, connMaxIdleTime_set = None,
     closed = False, counters = zero_stats\<rparr>"

definition sql_Open ::
  "(string \<Rightarrow> string option) \<Rightarrow> string \<Rightarrow> string \<Rightarrow> world \<Rightarrow> (go_error + nat) \<times> world" where
  "sql_Open parse_dsn drv dsn w =
     (case parse_dsn dsn of
        Some msg \<Rightarrow> (Inl (StoreError msg), w)
      | None \<Rightarrow> (Inr (length (handles w)), w\<lparr>handles := handles w @ [new_handle drv dsn]\<rparr>))"

text \<open>
  \<^verbatim>\<open>DB.Ping()\<close>: the connectivity probe. Its first argument is what the probe of
  the store finds (\<open>None\<close>, or the message of the error).
\<close>

definition DB_Ping :: "string option \<Rightarrow> sql_DB \<Rightarrow> go_error option" where
  "DB_Ping probe db = (if closed db then Some ErrDBClosed else map_option StoreError probe)"

text \<open>
  \<^verbatim>\<open>DB.Close()\<close>: marks the handle closed and reports the error of closing the
  connections (the first argument); on a handle already closed it does nothing.
\<close>

definition DB_Close :: "go_error option \<Rightarrow> sql_DB \<Rightarrow> go_error option \<times> sql_DB" where
  "DB_Close close_err db = (if closed db then (None, db) else (close_err, db\<lparr>closed := True\<rparr>))"

text \<open>\<^verbatim>\<open>NewDBPool\<close> (lines 25 to 49).\<close>

definition NewDBPool ::
  "(string \<Rightarrow> string option) \<Rightarrow> string option \<Rightarrow> string \<Rightarrow> PoolConfig \<Rightarrow> world \<Rightarrow>
   (go_error + DBPool) \<times> world" where
  "NewDBPool parse_dsn probe dsn config w =
     (case sql_Open parse_dsn ''mysql'' dsn w of
        (Inl err, w0) \<Rightarrow> (Inl (Errorf ''failed to open database: '' err), w0)
      | (Inr db, w0) \<Rightarrow>
          (let w1 = update_handle db (SetMaxOpenConns (MaxOpenConns config)) w0;
               w2 = update_handle db (SetMaxIdleConns (MaxIdleConns config)) w1;
               w3 = update_handle db (SetConnMaxLifetime (ConnMaxLifetime config)) w2;
               w4 = update_handle db (SetConnMaxIdleTime (ConnMaxIdleTime config)) w3
           in case DB_Ping probe (handles w4 ! db) of
                Some err \<Rightarrow> (Inl (Errorf ''failed to ping database: '' err), w4)
              | None \<Rightarrow>
                  (Inr \<lparr>DB = db\<rparr>,
                   emit (Printf ''  Connection Max Idle Time: %v''
                           [ArgDuration (ConnMaxIdleTime config)])
                    (emit (Printf ''  Connection Max Lifetime: %v''
                             [ArgDuration (ConnMaxLifetime config)])
                      (emit (Printf ''  Max Idle Connections: %d'' [ArgInt (MaxIdleConns config)])
                        (emit (Printf ''  Max Open Connections: %d''
                                 [ArgInt (MaxOpenConns config)])
                          (emit (Printf ''Database connection pool configured:'' []) w4)))))))"

text \<open>\<^verbatim>\<open>Close\<close> (lines 51 to 53).\<close>

definition Close :: "go_error option \<Rightarrow> DBPool \<Rightarrow> world \<Rightarrow> panic + (go_error option \<times> world)" where
  "Close close_err p w =
     (case handle_of w p of
        None \<Rightarrow> Inl NilPointerDereference
      | Some db \<Rightarrow> Inr (fst (DB_Close close_err db), update_handle (DB p) (\<lambda>d. snd (DB_Close close_err d)) w))"

text \<open>\<^verbatim>\<open>GetStats\<close> (lines 55 to 57) and \<^verbatim>\<open>PrintStats\<close> (lines 59 to 70).\<close>

definition GetStats :: "DBPool \<Rightarrow> world \<Rightarrow> panic + (DBStats \<times> world)" where
  "GetStats p w =
     (case handle_of w p of
        None \<Rightarrow> Inl NilPointerDereference
      | Some db \<Rightarrow> Inr (Stats db, w))"

definition stats_lines :: "DBStats \<Rightarrow> log_line list" where
  "stats_lines stats =
     [Printf ''Connection Pool Stats:'' [],
      Printf ''  Open Connections: %d'' [ArgInt (OpenConnections stats)],
      Printf ''  In Use: %d'' [ArgInt (InUse stats)],
      Printf ''  Idle: %d'' [ArgInt (Idle stats)],
      Printf ''  Wait Count: %d'' [ArgInt (WaitCount stats)],
      Printf ''  Wait Duration: %v'' [ArgDuration (WaitDuration stats)],
      Printf ''  Max Idle Closed: %d'' [ArgInt (MaxIdleClosed stats)],
      Printf ''  Max Idle Time Closed: %d'' [ArgInt (MaxIdleTimeClosed stats)],
      Printf ''  Max Lifetime Closed: %d'' [ArgInt (MaxLifetimeClosed stats)]]"

definition PrintStats :: "DBPool \<Rightarrow> world \<Rightarrow> panic + world" where
  "PrintStats p w =
     (case GetStats p w of
        Inl pn \<Rightarrow> Inl pn
      | Inr (stats, w0) \<Rightarrow> Inr (w0\<lparr>logged := logged w0 @ stats_lines stats\<rparr>))"

text \<open>
  \<^verbatim>\<open>SimulateClientAbort\<close> (lines 72 to 91). The first argument is the behaviour
  of \<^verbatim>\<open>p.DB.QueryContext\<close>, which lies outside the package; \<open>DB_QueryContext\<close>
  above is the library's. The result is the returned error (\<open>None\<close> for \<^verbatim>\<open>nil\<close>)
  and the state with the lines logged.
\<close>

type_synonym query_fn = "sql_DB \<Rightarrow> go_context \<Rightarrow> string \<Rightarrow> duration \<Rightarrow> go_error option"

definition SimulateClientAbort ::
  "query_fn \<Rightarrow> DBPool \<Rightarrow> go_context \<Rightarrow> duration \<Rightarrow> duration \<Rightarrow> world \<Rightarrow>
   panic + (go_error option \<times> world)" where
  "SimulateClientAbort QueryContext p ctx queryDuration abortAfter w =
     (let abortCtx = WithTimeout ctx abortAfter;
          query = ''SELECT SLEEP(?)'';
          w1 = emit (Printf ''Starting query that will run for %v, but client will abort after %v''
                       [ArgDuration queryDuration, ArgDuration abortAfter]) w
      in case handle_of w1 p of
           None \<Rightarrow> Inl NilPointerDereference
         | Some db \<Rightarrow>
             (case QueryContext db abortCtx query queryDuration of
                Some err \<Rightarrow>
                  if err = DeadlineExceeded
                  then Inr (Some (Errorf ''client abort simulated: '' err),
                            emit (Printf ''Client aborted connection after %v (simulating client abort)''
                                    [ArgDuration abortAfter]) w1)
                  else Inr (Some (Errorf ''query failed: '' err), w1)
              | None \<Rightarrow>
                  Inr (None,
                       emit (Printf ''Query completed successfully (no abort occurred)'' []) w1)))"

text \<open>
  The two error returns of \<^verbatim>\<open>SimulateClientAbort\<close>, named as the specification
  names them: a client abort is the error built at line 84, a query error the
  one built at line 86.
\<close>

definition ClientAbortedError :: "go_error \<Rightarrow> bool" where
  "ClientAbortedError e =
     (case e of Errorf prefix err \<Rightarrow> prefix = ''client abort simulated: '' | _ \<Rightarrow> False)"

definition QueryError :: "go_error \<Rightarrow> bool" where
  "QueryError e =
     (case e of Errorf prefix err \<Rightarrow> prefix = ''query failed: '' | _ \<Rightarrow> False)"

text \<open>
  Two conditions on one query call against a store, read on the library above.
  The deadline elapses first: the context of the call is done by its deadline
  before the call would otherwise return (with the store's answer, or with the
  error of a failed dial). The deadline falls into the dial: it elapses while
  the driver is setting up the connection.
\<close>

definition answer_time :: "store_reply \<Rightarrow> duration" where
  "answer_time r =
     pool_wait r + dial_time r + (if dial_err r = None then reply_after r else 0)"

definition deadline_elapses_first :: "store \<Rightarrow> go_context \<Rightarrow> duration \<Rightarrow> duration \<Rightarrow> bool" where
  "deadline_elapses_first st c queryDuration abortAfter =
     (case ctx_done (WithTimeout c abortAfter) of
        None \<Rightarrow> False
      | Some (t, e) \<Rightarrow>
          e = DeadlineExceeded
          \<and> (t \<le> 0 \<or> t < answer_time (st ''SELECT SLEEP(?)'' queryDuration)))"

definition deadline_during_dial :: "store \<Rightarrow> go_context \<Rightarrow> duration \<Rightarrow> duration \<Rightarrow> bool" where
  "deadline_during_dial st c queryDuration abortAfter =
     (case ctx_done (WithTimeout c abortAfter) of
        None \<Rightarrow> False
      | Some (t, e) \<Rightarrow>
          e = DeadlineExceeded \<and> 0 < t
          \<and> pool_wait (st ''SELECT SLEEP(?)'' queryDuration) \<le> t
          \<and> t < pool_wait (st ''SELECT SLEEP(?)'' queryDuration)
                 + dial_time (st ''SELECT SLEEP(?)'' queryDuration))"

text \<open>
  A context outlives a duration when it is not done within it;
  \<^verbatim>\<open>context.Background()\<close> outlives every duration.
\<close>

definition outlives :: "go_context \<Rightarrow> duration \<Rightarrow> bool" where
  "outlives c d = (case ctx_done c of None \<Rightarrow> True | Some (t, e) \<Rightarrow> d < t)"

text \<open>The constants of \<^verbatim>\<open>cmd/main.go\<close>: durations, data source name, limits.\<close>

definition minute :: duration where
  "minute = 60000000000"

definition second :: duration where
  "second = 1000000000"

definition millisecond :: duration where
  "millisecond = 1000000"

definition main_dsn :: string where
  "main_dsn = ''appuser:apppassword@tcp(localhost:3306)/practice_db?parseTime=true''"

definition main_config :: PoolConfig where
  "main_config = \<lparr>MaxOpenConns = 25, MaxIdleConns = 1, ConnMaxLifetime = 1 * second,
     ConnMaxIdleTime = 1 * second\<rparr>"

text \<open>
  The handle that \<^verbatim>\<open>NewDBPool\<close> has opened for a data source name and configured
  with the four limits of a \<^verbatim>\<open>PoolConfig\<close>; and the property of a state that the
  handle at an address has been closed.
\<close>

definition configured :: "string \<Rightarrow> PoolConfig \<Rightarrow> sql_DB" where
  "configured dsn config = \<lparr>driverName = ''mysql'', dataSourceName = dsn,
     maxOpenConns_set = Some (MaxOpenConns config), maxIdleConns_set = Some (MaxIdleConns config),
     connMaxLifetime_set = Some (ConnMaxLifetime config),
     connMaxIdleTime_set = Some (ConnMaxIdleTime config), closed = False, counters = zero_stats\<rparr>"

definition closed_at :: "nat \<Rightarrow> world \<Rightarrow> bool" where
  "closed_at a w = (a < length (handles w) \<and> closed (handles w ! a))"

text \<open>
  Concrete things to run the functions on. A store whose \<^verbatim>\<open>SLEEP\<close> blocks for
  exactly the time asked and then answers without error, on a connection that
  is there at once. The same store behind a connection that takes two seconds
  to set up. The state in which the one handle that \<^verbatim>\<open>main\<close> configures exists
  and nothing is logged; its pool holds address 0.
\<close>

definition sleeping_store :: store where
  "sleeping_store = (\<lambda>query arg.
     \<lparr>pool_wait = 0, dial_time = 0, dial_err = None, reply_after = arg, reply_err = None\<rparr>)"

definition slow_dial_store :: store where
  "slow_dial_store = (\<lambda>query arg.
     \<lparr>pool_wait = 0, dial_time = 2 * second, dial_err = None, reply_after = arg,
      reply_err = None\<rparr>)"

definition pool_world :: world where
  "pool_world = \<lparr>handles = [configured main_dsn main_config], logged = []\<rparr>"

definition pool0 :: DBPool where
  "pool0 = \<lparr>DB = 0\<rparr>"

text \<open>
  Calls of the package's functions, one after the other: the state after a
  call, and after a list of calls. A call that panics leaves the state as it
  was.
\<close>

datatype call =
    CallNewDBPool "string \<Rightarrow> string option" "string option" string PoolConfig
  | CallClose "go_error option" DBPool
  | CallGetStats DBPool
  | CallPrintStats DBPool
  | CallSimulateClientAbort query_fn DBPool go_context duration duration

fun after_call :: "call \<Rightarrow> world \<Rightarrow> world" where
  "after_call (CallNewDBPool parse_dsn probe dsn config) w =
     snd (NewDBPool parse_dsn probe dsn config w)"
| "after_call (CallClose close_err p) w =
     (case Close close_err p w of Inl pn \<Rightarrow> w | Inr (err, w') \<Rightarrow> w')"
| "after_call (CallGetStats p) w =
     (case GetStats p w of Inl pn \<Rightarrow> w | Inr (stats, w') \<Rightarrow> w')"
| "after_call (CallPrintStats p) w =
     (case PrintStats p w of Inl pn \<Rightarrow> w | Inr w' \<Rightarrow> w')"
| "after_call (CallSimulateClientAbort qc p c queryDuration abortAfter) w =
     (case SimulateClientAbort qc p c queryDuration abortAfter w of
        Inl pn \<Rightarrow> w
      | Inr (err, w') \<Rightarrow> w')"

fun after_calls :: "call list \<Rightarrow> world \<Rightarrow> world" where
  "after_calls [] w = w"
| "after_calls (c # cs) w = after_calls cs (after_call c w)"

fun is_stats_call :: "call \<Rightarrow> bool" where
  "is_stats_call (CallGetStats p) = True"
| "is_stats_call (CallPrintStats p) = True"
| "is_stats_call c = False"

section \<open>The concurrent clients\<close>

text \<open>
  \<^verbatim>\<open>sync.WaitGroup\<close>: a counter that \<^verbatim>\<open>Add\<close> changes by its argument, panicking when
  the counter becomes negative; \<^verbatim>\<open>Done\<close> is \<^verbatim>\<open>Add(-1)\<close>; \<^verbatim>\<open>Wait\<close> blocks until the
  counter is zero. The counter is a signed number of 32 bits: \<^verbatim>\<open>Add\<close> adds
  \<^verbatim>\<open>uint64(delta) << 32\<close> to a word whose upper half is the counter and reads the
  result as \<^verbatim>\<open>int32\<close>, so the sum wraps around (\<open>int32\<close> below). A counter that is
  held is never negative, and is a natural number here. The goroutines that
  wait are not part of the wait group's state here: in the runs below nobody
  waits while \<^verbatim>\<open>Add\<close> is called, so its check for that misuse never applies.
\<close>

definition int32 :: "int \<Rightarrow> int" where
  "int32 x = (x + 2147483648) mod 4294967296 - 2147483648"

definition wg_Add :: "int \<Rightarrow> nat \<Rightarrow> panic + nat" where
  "wg_Add delta counter =
     (let v = int32 (int counter + delta)
      in if v < 0 then Inl NegativeWaitGroupCounter else Inr (nat v))"

definition wg_Done :: "nat \<Rightarrow> panic + nat" where
  "wg_Done counter = wg_Add (- 1) counter"

text \<open>
  Where a client goroutine (the function literal of lines 103 to 112) stands:
  before line 105, before the call of line 106, before the report of lines 107
  to 111 with the error the call returned, before the deferred \<^verbatim>\<open>wg.Done()\<close>, or
  finished. A call that panics runs the deferred \<^verbatim>\<open>wg.Done()\<close> as well and then
  ends the whole program.
\<close>

datatype client_pc =
    ClientStart
  | ClientCall
  | ClientReport "go_error option"
  | ClientDeferred
  | ClientPanicking panic
  | ClientDying panic
  | ClientFinished

text \<open>
  Where the calling goroutine stands. It runs \<^verbatim>\<open>simulateClientAborts\<close> of
  \<^verbatim>\<open>cmd/main.go\<close> (lines 13 to 26) with the body of
  \<^verbatim>\<open>SimulateMultipleClientAborts\<close> (pool.go, lines 100 to 113) in the place of the
  call: before line 17 of main.go; before lines 100, 101 and the loop of line
  102 of pool.go; then, the call having returned, before \<^verbatim>\<open>wg.Wait()\<close>,
  \<^verbatim>\<open>pool.PrintStats()\<close> and the send on the channel; or at its end.
\<close>

datatype caller_pc =
    CallerBegin
  | CallerLog
  | CallerAdd
  | CallerLoop
  | CallerWait
  | CallerPrintStats
  | CallerSend
  | CallerEnd

text \<open>
  The goroutines and what they share: the state of the package, the counter of
  the wait group, the loop variable \<^verbatim>\<open>i\<close>, the client goroutines started so far
  (each with its \<^verbatim>\<open>clientID\<close>), and the panic that ended the program, if any.
\<close>

record system =
  sys_world :: world
  wg :: nat
  caller :: caller_pc
  loop_i :: int
  clients :: "(int \<times> client_pc) list"
  crashed :: "panic option"

text \<open>
  What stays fixed during a run: the arguments of
  \<^verbatim>\<open>SimulateMultipleClientAborts\<close>, and for each \<^verbatim>\<open>clientID\<close> how its query call
  behaves.
\<close>

record scenario =
  sc_pool :: DBPool
  sc_ctx :: go_context
  sc_numClients :: int
  sc_queryDuration :: duration
  sc_abortAfter :: duration
  sc_query :: "int \<Rightarrow> query_fn"

definition go_client :: "int \<Rightarrow> system \<Rightarrow> system" where
  "go_client clientID s = s\<lparr>clients := clients s @ [(clientID, ClientStart)]\<rparr>"

definition panic_with :: "panic \<Rightarrow> system \<Rightarrow> system" where
  "panic_with pn s = s\<lparr>crashed := Some pn\<rparr>"

text \<open>
  \<^verbatim>\<open>SimulateMultipleClientAborts\<close> (lines 93 to 114) run by its caller without
  interruption: the line logged, \<^verbatim>\<open>wg.Add(numClients)\<close>, and one goroutine started
  for each \<^verbatim>\<open>i\<close> from 0 below \<^verbatim>\<open>numClients\<close>, with \<^verbatim>\<open>clientID = i + 1\<close>. It returns
  without waiting for the goroutines.
\<close>

function spawn_clients :: "int \<Rightarrow> int \<Rightarrow> system \<Rightarrow> system" where
  "spawn_clients i n s = (if i < n then spawn_clients (i + 1) n (go_client (i + 1) s) else s)"
  by pat_completeness auto
termination
  by (relation "measure (\<lambda>(i, n, s). nat (n - i))") auto

definition SimulateMultipleClientAborts :: "int \<Rightarrow> system \<Rightarrow> system" where
  "SimulateMultipleClientAborts n s =
     (let s1 = s\<lparr>sys_world := emit (Printf ''Simulating %d client aborts'' [ArgInt n]) (sys_world s)\<rparr>
      in case wg_Add n (wg s1) of
           Inl pn \<Rightarrow> panic_with pn s1
         | Inr c \<Rightarrow> spawn_clients 0 n (s1\<lparr>wg := c\<rparr>))"

text \<open>One step of the calling goroutine. At \<^verbatim>\<open>wg.Wait()\<close> it stays until the counter is zero.\<close>

definition caller_step :: "scenario \<Rightarrow> system \<Rightarrow> system" where
  "caller_step sc s =
     (case caller s of
        CallerBegin \<Rightarrow>
          s\<lparr>sys_world := emit (Println ''Multiple concurrent client aborts:'') (sys_world s),
            caller := CallerLog\<rparr>
      | CallerLog \<Rightarrow>
          s\<lparr>sys_world := emit (Printf ''Simulating %d client aborts'' [ArgInt (sc_numClients sc)])
                           (sys_world s),
            caller := CallerAdd\<rparr>
      | CallerAdd \<Rightarrow>
          (case wg_Add (sc_numClients sc) (wg s) of
             Inl pn \<Rightarrow> panic_with pn s
           | Inr c \<Rightarrow> s\<lparr>wg := c, caller := CallerLoop, loop_i := 0\<rparr>)
      | CallerLoop \<Rightarrow>
          if loop_i s < sc_numClients sc
          then (go_client (loop_i s + 1) s)\<lparr>loop_i := loop_i s + 1\<rparr>
          else s\<lparr>caller := CallerWait\<rparr>
      | CallerWait \<Rightarrow> if wg s = 0 then s\<lparr>caller := CallerPrintStats\<rparr> else s
      | CallerPrintStats \<Rightarrow>
          (case PrintStats (sc_pool sc) (sys_world s) of
             Inl pn \<Rightarrow> panic_with pn s
           | Inr w \<Rightarrow> s\<lparr>sys_world := w, caller := CallerSend\<rparr>)
      | CallerSend \<Rightarrow> s\<lparr>caller := CallerEnd\<rparr>
      | CallerEnd \<Rightarrow> s)"

text \<open>One step of the \<open>k\<close>-th client goroutine started.\<close>

definition set_client :: "nat \<Rightarrow> client_pc \<Rightarrow> system \<Rightarrow> system" where
  "set_client k pc s = s\<lparr>clients := (clients s)[k := (fst (clients s ! k), pc)]\<rparr>"

definition client_step :: "scenario \<Rightarrow> nat \<Rightarrow> system \<Rightarrow> system" where
  "client_step sc k s =
     (let clientID = fst (clients s ! k)
      in case snd (clients s ! k) of
           ClientStart \<Rightarrow>
             set_client k ClientCall
               (s\<lparr>sys_world := emit (Printf ''Client %d: Starting simulation'' [ArgInt clientID])
                                (sys_world s)\<rparr>)
         | ClientCall \<Rightarrow>
             (case SimulateClientAbort (sc_query sc clientID) (sc_pool sc) (sc_ctx sc)
                     (sc_queryDuration sc) (sc_abortAfter sc) (sys_world s) of
                Inl pn \<Rightarrow> set_client k (ClientPanicking pn) s
              | Inr (err, w) \<Rightarrow> set_client k (ClientReport err) (s\<lparr>sys_world := w\<rparr>))
         | ClientReport err \<Rightarrow>
             set_client k ClientDeferred
               (s\<lparr>sys_world :=
                    emit (case err of
                            Some e \<Rightarrow> Printf ''Client %d: %v'' [ArgInt clientID, ArgError e]
                          | None \<Rightarrow> Printf ''Client %d: Completed successfully'' [ArgInt clientID])
                      (sys_world s)\<rparr>)
         | ClientDeferred \<Rightarrow>
             (case wg_Done (wg s) of
                Inl pn \<Rightarrow> panic_with pn s
              | Inr c \<Rightarrow> set_client k ClientFinished (s\<lparr>wg := c\<rparr>))
         | ClientPanicking pn \<Rightarrow>
             (case wg_Done (wg s) of
                Inl pn' \<Rightarrow> panic_with pn' s
              | Inr c \<Rightarrow> set_client k (ClientDying pn) (s\<lparr>wg := c\<rparr>))
         | ClientDying pn \<Rightarrow> panic_with pn s
         | ClientFinished \<Rightarrow> s)"

text \<open>
  A schedule names the goroutine that takes each next step. A goroutine that
  cannot move (blocked, finished, not started) leaves the state as it is, and
  after a panic nothing moves.
\<close>

datatype thread = Caller | Client nat

definition step :: "scenario \<Rightarrow> thread \<Rightarrow> system \<Rightarrow> system" where
  "step sc t s =
     (if crashed s \<noteq> None then s
      else case t of
             Caller \<Rightarrow> caller_step sc s
           | Client k \<Rightarrow> if k < length (clients s) then client_step sc k s else s)"

fun run :: "scenario \<Rightarrow> thread list \<Rightarrow> system \<Rightarrow> system" where
  "run sc [] s = s"
| "run sc (t # ts) s = run sc ts (step sc t s)"

text \<open>
  The start of \<^verbatim>\<open>simulateClientAborts\<close>: a fresh wait group, no client yet. The
  scenario that \<^verbatim>\<open>cmd/main.go\<close> runs has 5 clients, a query of 15 minutes and an
  abort after 10.
\<close>

definition start :: "world \<Rightarrow> system" where
  "start w = \<lparr>sys_world = w, wg = 0, caller = CallerBegin, loop_i = 0, clients = [],
     crashed = None\<rparr>"

definition main_scenario :: "DBPool \<Rightarrow> (int \<Rightarrow> query_fn) \<Rightarrow> scenario" where
  "main_scenario p qs = \<lparr>sc_pool = p, sc_ctx = Background, sc_numClients = 5,
     sc_queryDuration = 15 * minute, sc_abortAfter = 10 * minute, sc_query = qs\<rparr>"

text \<open>
  The outcome lines: what a client logs at lines 107 to 111, and how many of
  them a log holds for one \<^verbatim>\<open>clientID\<close>.
\<close>

fun outcome_of :: "int \<Rightarrow> log_line \<Rightarrow> bool" where
  "outcome_of clientID (Printf fmt args) =
     ((fmt = ''Client %d: %v'' \<or> fmt = ''Client %d: Completed successfully'')
      \<and> (case args of [] \<Rightarrow> False | a # _ \<Rightarrow> a = ArgInt clientID))"
| "outcome_of clientID (Println s) = False"

definition outcomes :: "int \<Rightarrow> log_line list \<Rightarrow> nat" where
  "outcomes clientID ls = length (filter (outcome_of clientID) ls)"

section \<open>The program \<^verbatim>\<open>cmd/main.go\<close>\<close>

text \<open>
  The loop of lines 48 to 56 takes, each time round, whichever of the two
  channels is ready; the sequence of these choices is given. The result says
  whether the loop has returned (the completion signal came) or is still
  waiting when the given choices are used up.
\<close>

datatype select_case = FromCh | FromTicker

fun poll_loop :: "DBPool \<Rightarrow> select_case list \<Rightarrow> world \<Rightarrow> panic + (bool \<times> world)" where
  "poll_loop p [] w = Inr (False, w)"
| "poll_loop p (FromCh # evs) w = Inr (True, emit (Println ''Client abort simulation finished'') w)"
| "poll_loop p (FromTicker # evs) w =
     (case PrintStats p w of
        Inl pn \<Rightarrow> Inl pn
      | Inr w' \<Rightarrow> poll_loop p evs w')"

text \<open>
  How \<^verbatim>\<open>main\<close> ends: \<^verbatim>\<open>log.Fatalf\<close> exits the process, \<^verbatim>\<open>main\<close> returns, a panic, or
  it is still in its loop. With it: the pool handed to the goroutine of line 46
  if that line was reached, the period of the ticker of line 47 if that line
  was reached, and the state. The lines of the goroutine itself are the
  subject of the section above and are not repeated here.
\<close>

datatype main_end = FatalExit | MainReturned | MainPanicked panic | MainLooping

record main_run =
  ended :: main_end
  simulator_started :: "DBPool option"
  ticker_started :: "duration option"
  final :: world

definition main ::
  "(string \<Rightarrow> string option) \<Rightarrow> string option \<Rightarrow> go_error option \<Rightarrow> select_case list \<Rightarrow> world \<Rightarrow>
   main_run" where
  "main parse_dsn probe close_err evs w =
     (case NewDBPool parse_dsn probe main_dsn main_config w of
        (Inl err, w1) \<Rightarrow>
          \<lparr>ended = FatalExit, simulator_started = None, ticker_started = None,
           final = emit (Printf ''Failed to create database pool: %v'' [ArgError err]) w1\<rparr>
      | (Inr p, w1) \<Rightarrow>
          (case PrintStats p
                  (emit (Println ''=== Database Connection Pool with Client Abort Simulation ==='') w1) of
             Inl pn \<Rightarrow>
               \<lparr>ended = MainPanicked pn, simulator_started = None, ticker_started = None,
                final = w1\<rparr>
           | Inr w2 \<Rightarrow>
               (case poll_loop p evs w2 of
                  Inl pn \<Rightarrow>
                    \<lparr>ended = MainPanicked pn, simulator_started = Some p,
                     ticker_started = Some (5 * second), final = w2\<rparr>
                | Inr (False, w3) \<Rightarrow>
                    \<lparr>ended = MainLooping, simulator_started = Some p,
                     ticker_started = Some (5 * second), final = w3\<rparr>
                | Inr (True, w3) \<Rightarrow>
                    (case Close close_err p w3 of
                       Inl pn \<Rightarrow>
                         \<lparr>ended = MainPanicked pn, simulator_started = Some p,
                          ticker_started = Some (5 * second), final = w3\<rparr>
                     | Inr (err, w4) \<Rightarrow>
                         \<lparr>ended = MainReturned, simulator_started = Some p,
                          ticker_started = Some (5 * second), final = w4\<rparr>))))"

section \<open>What holds of every run\<close>

text \<open>
  The predicates used to state and prove the properties of the runs: how many
  clients have finished; whether a client has logged its outcome; whether it is
  on the way of a panic; whether the caller is past the return of
  \<^verbatim>\<open>SimulateMultipleClientAborts\<close>, and past the return of \<^verbatim>\<open>wg.Wait()\<close>.
\<close>

definition finished :: "(int \<times> client_pc) list \<Rightarrow> nat" where
  "finished cs = length (filter (\<lambda>c. snd c = ClientFinished) cs)"

fun reported :: "client_pc \<Rightarrow> bool" where
  "reported ClientDeferred = True"
| "reported ClientFinished = True"
| "reported pc = False"

fun panicking :: "client_pc \<Rightarrow> bool" where
  "panicking (ClientPanicking pn) = True"
| "panicking (ClientDying pn) = True"
| "panicking pc = False"

fun call_returned :: "caller_pc \<Rightarrow> bool" where
  "call_returned CallerBegin = False"
| "call_returned CallerLog = False"
| "call_returned CallerAdd = False"
| "call_returned CallerLoop = False"
| "call_returned pc = True"

fun wait_returned :: "caller_pc \<Rightarrow> bool" where
  "wait_returned CallerPrintStats = True"
| "wait_returned CallerSend = True"
| "wait_returned CallerEnd = True"
| "wait_returned pc = False"

text \<open>
  The invariant of the runs that start from \<open>start w0\<close>, in four parts: the
  clients carry the identifiers 1, 2, ... in the order they were started and
  none is panicking; the log holds, for each client, one outcome line more than
  at the start exactly when the client has reported, and no new outcome line
  for any other identifier; the counter of the wait group plus the number of
  finished clients is \<^verbatim>\<open>numClients\<close> from \<^verbatim>\<open>wg.Add\<close> on, and past \<^verbatim>\<open>wg.Wait()\<close> all
  clients are finished; the handles are those of the start. The only panic is
  that of \<^verbatim>\<open>wg.Add\<close> on a negative \<^verbatim>\<open>numClients\<close>.
\<close>

definition ids_ok :: "system \<Rightarrow> bool" where
  "ids_ok s = (\<forall>k<length (clients s).
      fst (clients s ! k) = int k + 1 \<and> \<not> panicking (snd (clients s ! k)))"

definition log_ok :: "world \<Rightarrow> system \<Rightarrow> bool" where
  "log_ok w0 s =
     ((\<forall>k<length (clients s).
         outcomes (int k + 1) (logged (sys_world s)) =
           outcomes (int k + 1) (logged w0) + (if reported (snd (clients s ! k)) then 1 else 0))
      \<and> (\<forall>cid. cid < 1 \<or> int (length (clients s)) < cid \<longrightarrow>
            outcomes cid (logged (sys_world s)) = outcomes cid (logged w0)))"

definition count_ok :: "scenario \<Rightarrow> system \<Rightarrow> bool" where
  "count_ok sc s =
     ((\<not> call_returned (caller s) \<and> caller s \<noteq> CallerLoop \<longrightarrow> clients s = [] \<and> wg s = 0)
      \<and> (caller s = CallerLoop \<longrightarrow>
            0 \<le> loop_i s \<and> loop_i s \<le> sc_numClients sc \<and> int (length (clients s)) = loop_i s
            \<and> int (wg s) + int (finished (clients s)) = sc_numClients sc)
      \<and> (caller s = CallerWait \<longrightarrow>
            int (length (clients s)) = sc_numClients sc
            \<and> int (wg s) + int (finished (clients s)) = sc_numClients sc)
      \<and> (wait_returned (caller s) \<longrightarrow>
            int (length (clients s)) = sc_numClients sc \<and> wg s = 0
            \<and> finished (clients s) = length (clients s)))"

definition sim_inv :: "scenario \<Rightarrow> world \<Rightarrow> system \<Rightarrow> bool" where
  "sim_inv sc w0 s =
     ((crashed s \<noteq> None \<longrightarrow> caller s = CallerAdd \<and> sc_numClients sc < 0)
      \<and> (crashed s = None \<longrightarrow>
            handles (sys_world s) = handles w0 \<and> ids_ok s \<and> log_ok w0 s \<and> count_ok sc s))"


text \<open>
  A bound on the steps that a run still has to take: those of the caller, four
  for each client from its start, and five for a client not yet started (the
  step of the loop that starts it, and its four).
\<close>

fun client_rank :: "client_pc \<Rightarrow> nat" where
  "client_rank ClientStart = 4"
| "client_rank ClientCall = 3"
| "client_rank (ClientReport err) = 2"
| "client_rank ClientDeferred = 1"
| "client_rank pc = 0"

fun caller_rank :: "caller_pc \<Rightarrow> nat" where
  "caller_rank CallerBegin = 7"
| "caller_rank CallerLog = 6"
| "caller_rank CallerAdd = 5"
| "caller_rank CallerLoop = 4"
| "caller_rank CallerWait = 3"
| "caller_rank CallerPrintStats = 2"
| "caller_rank CallerSend = 1"
| "caller_rank CallerEnd = 0"

definition steps_left :: "scenario \<Rightarrow> system \<Rightarrow> nat" where
  "steps_left sc s =
     caller_rank (caller s) + 5 * nat (sc_numClients sc - int (length (clients s)))
     + sum_list (map (\<lambda>c. client_rank (snd c)) (clients s))"

text \<open>A scenario with one client against the sleeping store, and a schedule that runs it to its end.\<close>

definition one_client :: scenario where
  "one_client = \<lparr>sc_pool = pool0, sc_ctx = Background, sc_numClients = 1,
     sc_queryDuration = 15 * minute, sc_abortAfter = 10 * minute,
     sc_query = (\<lambda>clientID. DB_QueryContext sleeping_store)\<rparr>"


definition slow_dial_client :: scenario where
  "slow_dial_client = \<lparr>sc_pool = pool0, sc_ctx = Background, sc_numClients = 1,
     sc_queryDuration = 2 * second, sc_abortAfter = 500 * millisecond,
     sc_query = (\<lambda>clientID. DB_QueryContext slow_dial_store)\<rparr>"

definition one_client_schedule :: "thread list" where
  "one_client_schedule =
     [Caller, Caller, Caller, Caller, Caller, Client 0, Client 0, Client 0, Client 0,
      Caller, Caller, Caller]"


section \<open>Basic facts about the state\<close>

lemma handle_of_Some:
  "handle_of w p = Some db \<longleftrightarrow> DB p < length (handles w) \<and> db = handles w ! DB p"
  by (auto simp: handle_of_def)

lemma handle_of_emit [simp]: "handle_of (emit l w) p = handle_of w p"
  by (simp add: handle_of_def emit_def)

lemma handles_emit [simp]: "handles (emit l w) = handles w"
  by (simp add: emit_def)

lemma logged_emit [simp]: "logged (emit l w) = logged w @ [l]"
  by (simp add: emit_def)

lemma handles_update_handle [simp]:
  "handles (update_handle a f w) = (handles w)[a := f (handles w ! a)]"
  by (simp add: update_handle_def)

lemma logged_update_handle [simp]: "logged (update_handle a f w) = logged w"
  by (simp add: update_handle_def)

lemma int32_id: "- 2147483648 \<le> x \<Longrightarrow> x < 2147483648 \<Longrightarrow> int32 x = x"
  by (simp add: int32_def)

lemma wg_Add_ok:
  "0 \<le> int c + d \<Longrightarrow> int c + d < 2147483648 \<Longrightarrow> wg_Add d c = Inr (nat (int c + d))"
  by (simp add: wg_Add_def int32_id)

lemma wg_Add_panic:
  "- 2147483648 \<le> int c + d \<Longrightarrow> int c + d < 0 \<Longrightarrow> wg_Add d c = Inl NegativeWaitGroupCounter"
  by (simp add: wg_Add_def int32_id)

lemma ctx_done_WithTimeout_Background [simp]:
  "ctx_done (WithTimeout Background d) = Some (d, DeadlineExceeded)"
  by (simp add: ctx_done_def WithTimeout_def Background_def)

lemma SimulateClientAbort_handles:
  "SimulateClientAbort qc p c qd aa w = Inr (r, w') \<Longrightarrow> handles w' = handles w"
  by (auto simp: SimulateClientAbort_def Let_def split: option.splits if_splits)

lemma PrintStats_handles: "PrintStats p w = Inr w' \<Longrightarrow> handles w' = handles w"
  by (auto simp: PrintStats_def GetStats_def split: option.splits sum.splits)

lemma GetStats_world: "GetStats p w = Inr (r, w') \<Longrightarrow> w' = w"
  by (auto simp: GetStats_def split: option.splits)

lemma NewDBPool_handles:
  "handles (snd (NewDBPool parse_dsn probe dsn config w)) =
     (if parse_dsn dsn = None then handles w @ [configured dsn config] else handles w)"
  by (auto simp: NewDBPool_def sql_Open_def Let_def new_handle_def configured_def
      SetMaxOpenConns_def SetMaxIdleConns_def SetConnMaxLifetime_def SetConnMaxIdleTime_def
      split: option.splits)

section \<open>Classification of a failed query\<close>

text \<open>
  C8. \<^verbatim>\<open>SimulateClientAbort\<close> compares the error of the query call with the
  sentinel \<^verbatim>\<open>context.DeadlineExceeded\<close> by \<^verbatim>\<open>==\<close>: an error that wraps the sentinel
  without being the sentinel is reported as a generic query failure, not as a
  client abort. This holds for every behaviour of the query call.
\<close>

theorem SimulateClientAbort_wrapped_deadline_is_query_failure:
  assumes "handle_of w p = Some db"
    and "qc db (WithTimeout c abortAfter) ''SELECT SLEEP(?)'' queryDuration = Some err"
    and "errors_Is err DeadlineExceeded"
    and "err \<noteq> DeadlineExceeded"
  shows "\<exists>w'. SimulateClientAbort qc p c queryDuration abortAfter w =
           Inr (Some (Errorf ''query failed: '' err), w')
         \<and> QueryError (Errorf ''query failed: '' err)
         \<and> \<not> ClientAbortedError (Errorf ''query failed: '' err)"
  using assms
  by (simp add: SimulateClientAbort_def Let_def QueryError_def ClientAbortedError_def)

theorem SimulateClientAbort_wrapped_deadline_witness:
  "\<exists>w'. SimulateClientAbort (\<lambda>db c q d. Some (Errorf ''dial: '' DeadlineExceeded)) \<lparr>DB = 0\<rparr>
      Background 2 1 \<lparr>handles = [new_handle ''mysql'' ''dsn''], logged = []\<rparr> =
     Inr (Some (Errorf ''query failed: '' (Errorf ''dial: '' DeadlineExceeded)), w')
     \<and> QueryError (Errorf ''query failed: '' (Errorf ''dial: '' DeadlineExceeded))
     \<and> \<not> ClientAbortedError (Errorf ''query failed: '' (Errorf ''dial: '' DeadlineExceeded))"
  using SimulateClientAbort_wrapped_deadline_is_query_failure
    [of "\<lparr>handles = [new_handle ''mysql'' ''dsn''], logged = []\<rparr>" "\<lparr>DB = 0\<rparr>"
        "new_handle ''mysql'' ''dsn''" "\<lambda>db c q d. Some (Errorf ''dial: '' DeadlineExceeded)"
        Background 1 2 "Errorf ''dial: '' DeadlineExceeded"]
  by (simp add: handle_of_def)

section \<open>A deadline that elapses before the store answers\<close>

text \<open>
  Where the comparison of line 82 does what the function is written for: on an
  open handle, a deadline that elapses first, and not while the driver dials,
  comes back from the query call as the sentinel itself, and the function
  returns the client abort of line 84.
\<close>

lemma SimulateClientAbort_deadline_outside_dial:
  assumes "handle_of w p = Some db" and "\<not> closed db"
    and "deadline_elapses_first st c queryDuration abortAfter"
    and "\<not> deadline_during_dial st c queryDuration abortAfter"
  shows "\<exists>w'. SimulateClientAbort (DB_QueryContext st) p c queryDuration abortAfter w =
           Inr (Some (Errorf ''client abort simulated: '' DeadlineExceeded), w')"
  using assms
  by (auto simp: SimulateClientAbort_def Let_def DB_QueryContext_def deadline_elapses_first_def
      deadline_during_dial_def answer_time_def split: option.splits prod.splits if_splits)

text \<open>
  Where it does not: a deadline that elapses while the driver dials comes back
  as the error of the dial, which is not equal to the sentinel though
  \<^verbatim>\<open>errors.Is\<close> finds the sentinel in it, and the function returns the query error
  of line 86.
\<close>

lemma SimulateClientAbort_deadline_during_dial:
  assumes "handle_of w p = Some db" and "\<not> closed db"
    and "deadline_during_dial st c queryDuration abortAfter"
  shows "\<exists>w'. SimulateClientAbort (DB_QueryContext st) p c queryDuration abortAfter w =
           Inr (Some (Errorf ''query failed: '' (DialError DeadlineExceeded)), w')"
  using assms
  by (auto simp: SimulateClientAbort_def Let_def DB_QueryContext_def deadline_during_dial_def
      split: option.splits prod.splits if_splits)

lemma pool_world_handle:
  "handle_of pool_world pool0 = Some (configured main_dsn main_config)"
  by (simp add: handle_of_def pool_world_def pool0_def)

lemma half_second_during_dial:
  "deadline_during_dial slow_dial_store Background (2 * second) (500 * millisecond)"
  by (simp add: deadline_during_dial_def slow_dial_store_def second_def millisecond_def)

text \<open>
  C2. The specification asks that a deadline which elapses before the store
  returns is reported as the client abort, a kind apart from the query error.
  The code does not do so in every execution. With a deadline of 500ms, a query
  of 2s and a store whose connection takes 2s to set up, the deadline elapses
  first, while the driver dials; \<^verbatim>\<open>SimulateClientAbort\<close> logs its first line only
  and returns the error of line 86, which is a query error and not a client
  abort, although \<^verbatim>\<open>errors.Is\<close> finds the deadline in it.
\<close>

theorem deadline_during_dial_reported_as_query_error:
  "deadline_elapses_first slow_dial_store Background (2 * second) (500 * millisecond)
   \<and> SimulateClientAbort (DB_QueryContext slow_dial_store) pool0 Background
        (2 * second) (500 * millisecond) pool_world =
       Inr (Some (Errorf ''query failed: '' (DialError DeadlineExceeded)),
            emit (Printf ''Starting query that will run for %v, but client will abort after %v''
                    [ArgDuration (2 * second), ArgDuration (500 * millisecond)]) pool_world)
   \<and> QueryError (Errorf ''query failed: '' (DialError DeadlineExceeded))
   \<and> \<not> ClientAbortedError (Errorf ''query failed: '' (DialError DeadlineExceeded))
   \<and> errors_Is (Errorf ''query failed: '' (DialError DeadlineExceeded)) DeadlineExceeded"
proof -
  have d: "deadline_elapses_first slow_dial_store Background (2 * second) (500 * millisecond)"
    by (simp add: deadline_elapses_first_def answer_time_def slow_dial_store_def second_def
        millisecond_def)
  have r: "SimulateClientAbort (DB_QueryContext slow_dial_store) pool0 Background
        (2 * second) (500 * millisecond) pool_world =
       Inr (Some (Errorf ''query failed: '' (DialError DeadlineExceeded)),
            emit (Printf ''Starting query that will run for %v, but client will abort after %v''
                    [ArgDuration (2 * second), ArgDuration (500 * millisecond)]) pool_world)"
    by (simp add: SimulateClientAbort_def Let_def pool_world_handle DB_QueryContext_def
        configured_def slow_dial_store_def second_def millisecond_def)
  show ?thesis
    using d r by (simp add: QueryError_def ClientAbortedError_def)
qed

section \<open>A deadline shorter than the query\<close>

text \<open>
  With \<^verbatim>\<open>abortAfter\<close> smaller than \<^verbatim>\<open>queryDuration\<close>, a store whose sleep blocks for at
  least the time asked, an open handle, a dial that does not fail and a context
  that is not done within \<^verbatim>\<open>abortAfter\<close>, the call returns the client abort
  whenever the deadline does not fall into the dial.
\<close>

lemma SimulateClientAbort_shorter_deadline_outside_dial:
  assumes "handle_of w p = Some db" and "\<not> closed db"
    and "outlives c abortAfter"
    and "dial_err (st ''SELECT SLEEP(?)'' queryDuration) = None"
    and "queryDuration \<le> reply_after (st ''SELECT SLEEP(?)'' queryDuration)"
    and "0 \<le> pool_wait (st ''SELECT SLEEP(?)'' queryDuration)"
    and "0 \<le> dial_time (st ''SELECT SLEEP(?)'' queryDuration)"
    and "abortAfter < queryDuration"
    and "\<not> deadline_during_dial st c queryDuration abortAfter"
  shows "\<exists>w'. SimulateClientAbort (DB_QueryContext st) p c queryDuration abortAfter w =
           Inr (Some (Errorf ''client abort simulated: '' DeadlineExceeded), w')"
  using assms
  by (auto simp: SimulateClientAbort_def Let_def DB_QueryContext_def outlives_def ctx_done_def
      WithTimeout_def deadline_during_dial_def split: option.splits prod.splits if_splits)

text \<open>
  C3. The specification asks that a client whose \<^verbatim>\<open>abortAfter\<close> is smaller than its
  \<^verbatim>\<open>queryDuration\<close> always ends as aborted, given a store with a blocking sleep and
  no other fault. The code does not do so when the deadline is shorter than the
  set-up of the connection. With \<^verbatim>\<open>abortAfter\<close> 500ms and \<^verbatim>\<open>queryDuration\<close> 2s on an
  open handle, under \<^verbatim>\<open>context.Background()\<close>, against a store that sleeps as
  asked, reports no error and whose dial succeeds after 2s, the client of a run
  gets the query error from its call and logs it as its outcome: it ends as
  failed, not as aborted.
\<close>

theorem shorter_deadline_during_dial_ends_failed:
  "500 * millisecond < 2 * second
   \<and> \<not> closed (configured main_dsn main_config)
   \<and> outlives Background (500 * millisecond)
   \<and> 2 * second \<le> reply_after (slow_dial_store ''SELECT SLEEP(?)'' (2 * second))
   \<and> dial_err (slow_dial_store ''SELECT SLEEP(?)'' (2 * second)) = None
   \<and> reply_err (slow_dial_store ''SELECT SLEEP(?)'' (2 * second)) = None
   \<and> clients (run slow_dial_client
        [Caller, Caller, Caller, Caller, Caller, Client 0, Client 0, Client 0]
        (start pool_world)) =
       [(1, ClientDeferred)]
   \<and> last (logged (sys_world (run slow_dial_client
        [Caller, Caller, Caller, Caller, Caller, Client 0, Client 0, Client 0]
        (start pool_world)))) =
       Printf ''Client %d: %v''
         [ArgInt 1, ArgError (Errorf ''query failed: '' (DialError DeadlineExceeded))]
   \<and> \<not> ClientAbortedError (Errorf ''query failed: '' (DialError DeadlineExceeded))"
  by (simp add: slow_dial_client_def slow_dial_store_def second_def millisecond_def
      configured_def outlives_def ctx_done_def Background_def WithTimeout_def
      step_def caller_step_def client_step_def set_client_def start_def
      wg_Add_def int32_def go_client_def pool_world_def pool0_def emit_def
      SimulateClientAbort_def handle_of_def Let_def DB_QueryContext_def
      ClientAbortedError_def)

section \<open>A closed pool\<close>

lemma closed_at_after_call: "closed_at a w \<Longrightarrow> closed_at a (after_call c w)"
proof (cases c)
  case (CallNewDBPool parse_dsn probe dsn config)
  assume "closed_at a w"
  then show ?thesis
    by (simp add: CallNewDBPool closed_at_def NewDBPool_handles nth_append)
next
  case (CallClose ce q)
  assume "closed_at a w"
  then show ?thesis
    by (auto simp: CallClose closed_at_def Close_def DB_Close_def handle_of_def nth_list_update
        split: option.splits)
next
  case (CallGetStats q)
  assume "closed_at a w"
  then show ?thesis
    by (auto simp: CallGetStats closed_at_def dest: GetStats_world split: sum.splits)
next
  case (CallPrintStats q)
  assume "closed_at a w"
  then show ?thesis
    by (auto simp: CallPrintStats closed_at_def dest: PrintStats_handles split: sum.splits)
next
  case (CallSimulateClientAbort qc q c' qd aa)
  assume "closed_at a w"
  then show ?thesis
    by (auto simp: CallSimulateClientAbort closed_at_def dest: SimulateClientAbort_handles
        split: sum.splits)
qed

lemma closed_at_after_calls: "closed_at a w \<Longrightarrow> closed_at a (after_calls cs w)"
  by (induction cs arbitrary: w) (auto intro: closed_at_after_call)

lemma Close_closed_at: "Close ce p w = Inr (r, w1) \<Longrightarrow> closed_at (DB p) w1"
  by (auto simp: Close_def closed_at_def handle_of_def DB_Close_def split: option.splits if_splits)

lemma SimulateClientAbort_closed:
  "closed_at (DB p) w \<Longrightarrow>
   SimulateClientAbort (DB_QueryContext st) p c qd aa w =
     Inr (Some (Errorf ''query failed: '' ErrDBClosed),
          emit (Printf ''Starting query that will run for %v, but client will abort after %v''
                       [ArgDuration qd, ArgDuration aa]) w)"
  by (simp add: SimulateClientAbort_def Let_def closed_at_def handle_of_def DB_QueryContext_def)

lemma Close_pool_world:
  "Close None pool0 pool_world =
     Inr (None, \<lparr>handles = [(configured main_dsn main_config)\<lparr>closed := True\<rparr>], logged = []\<rparr>)"
  by (simp add: Close_def handle_of_def DB_Close_def pool_world_def pool0_def configured_def
      update_handle_def)

text \<open>
  C4, as the specification states it, asks for an error kind of its own after
  \<^verbatim>\<open>Close\<close>. The package has none: on the closed pool of \<^verbatim>\<open>main\<close> the call returns
  the error of line 86, the same kind as a failure reported by the store.
\<close>

theorem closed_pool_error_is_query_error_counterexample:
  "Close None pool0 pool_world =
     Inr (None, \<lparr>handles = [(configured main_dsn main_config)\<lparr>closed := True\<rparr>], logged = []\<rparr>)
   \<and> SimulateClientAbort (DB_QueryContext sleeping_store) pool0 Background
        (15 * minute) (10 * minute)
        \<lparr>handles = [(configured main_dsn main_config)\<lparr>closed := True\<rparr>], logged = []\<rparr> =
       Inr (Some (Errorf ''query failed: '' ErrDBClosed),
            \<lparr>handles = [(configured main_dsn main_config)\<lparr>closed := True\<rparr>],
             logged = [Printf ''Starting query that will run for %v, but client will abort after %v''
                         [ArgDuration (15 * minute), ArgDuration (10 * minute)]]\<rparr>)
   \<and> QueryError (Errorf ''query failed: '' ErrDBClosed)"
proof -
  have "SimulateClientAbort (DB_QueryContext sleeping_store) pool0 Background
        (15 * minute) (10 * minute)
        \<lparr>handles = [(configured main_dsn main_config)\<lparr>closed := True\<rparr>], logged = []\<rparr> =
       Inr (Some (Errorf ''query failed: '' ErrDBClosed),
            \<lparr>handles = [(configured main_dsn main_config)\<lparr>closed := True\<rparr>],
             logged = [Printf ''Starting query that will run for %v, but client will abort after %v''
                         [ArgDuration (15 * minute), ArgDuration (10 * minute)]]\<rparr>)"
    by (simp add: SimulateClientAbort_def Let_def handle_of_def DB_QueryContext_def
        configured_def pool0_def emit_def)
  then show ?thesis
    using Close_pool_world by (simp add: QueryError_def)
qed

text \<open>
  C4, amended. Once \<^verbatim>\<open>Close\<close> has returned for a pool, every later
  \<^verbatim>\<open>SimulateClientAbort\<close> on that pool, whatever calls of the package come in
  between, fails: it returns the query error of line 86 around the library's
  error for a closed handle, never \<^verbatim>\<open>nil\<close> and never the client abort.
\<close>

theorem SimulateClientAbort_after_Close_is_query_error:
  assumes "Close close_err p w = Inr (r, w1)"
  shows "\<exists>w'. SimulateClientAbort (DB_QueryContext st) p c queryDuration abortAfter
                 (after_calls cs w1) =
           Inr (Some (Errorf ''query failed: '' ErrDBClosed), w')
         \<and> QueryError (Errorf ''query failed: '' ErrDBClosed)
         \<and> \<not> ClientAbortedError (Errorf ''query failed: '' ErrDBClosed)"
  using SimulateClientAbort_closed [OF closed_at_after_calls [OF Close_closed_at [OF assms]]]
  by (simp add: QueryError_def ClientAbortedError_def)

theorem SimulateClientAbort_after_Close_witness:
  "Close None pool0 pool_world =
     Inr (None, \<lparr>handles = [(configured main_dsn main_config)\<lparr>closed := True\<rparr>], logged = []\<rparr>)
   \<and> (\<exists>w'. SimulateClientAbort (DB_QueryContext sleeping_store) pool0 Background
              (15 * minute) (10 * minute)
              (after_calls [CallPrintStats pool0, CallClose None pool0]
                 \<lparr>handles = [(configured main_dsn main_config)\<lparr>closed := True\<rparr>], logged = []\<rparr>) =
            Inr (Some (Errorf ''query failed: '' ErrDBClosed), w')
          \<and> QueryError (Errorf ''query failed: '' ErrDBClosed)
          \<and> \<not> ClientAbortedError (Errorf ''query failed: '' ErrDBClosed))"
  using Close_pool_world SimulateClientAbort_after_Close_is_query_error [OF Close_pool_world]
  by blast

section \<open>Construction of the pool\<close>

text \<open>
  C5. \<^verbatim>\<open>NewDBPool\<close> returns an error exactly when the data source name is
  malformed (\<^verbatim>\<open>sql.Open\<close> fails, and nothing is allocated) or the probe fails.
  Whenever the open succeeds, the new handle carries the four limits of the
  configuration; when the probe succeeds as well, the result is the pool of
  that handle.
\<close>

theorem NewDBPool_fails_iff_open_or_ping_fails:
  "(isl (fst (NewDBPool parse_dsn probe dsn config w)) \<longleftrightarrow> parse_dsn dsn \<noteq> None \<or> probe \<noteq> None)
   \<and> (\<forall>msg. parse_dsn dsn = Some msg \<longrightarrow>
          NewDBPool parse_dsn probe dsn config w =
            (Inl (Errorf ''failed to open database: '' (StoreError msg)), w))
   \<and> (\<forall>msg. parse_dsn dsn = None \<and> probe = Some msg \<longrightarrow>
          fst (NewDBPool parse_dsn probe dsn config w) =
            Inl (Errorf ''failed to ping database: '' (StoreError msg)))
   \<and> (parse_dsn dsn = None \<longrightarrow>
          handles (snd (NewDBPool parse_dsn probe dsn config w)) =
            handles w @ [configured dsn config])
   \<and> (parse_dsn dsn = None \<and> probe = None \<longrightarrow>
          fst (NewDBPool parse_dsn probe dsn config w) = Inr \<lparr>DB = length (handles w)\<rparr>
          \<and> handle_of (snd (NewDBPool parse_dsn probe dsn config w)) \<lparr>DB = length (handles w)\<rparr> =
              Some (configured dsn config))"
  by (auto simp: NewDBPool_def sql_Open_def Let_def new_handle_def configured_def DB_Ping_def
      handle_of_def SetMaxOpenConns_def SetMaxIdleConns_def SetConnMaxLifetime_def
      SetConnMaxIdleTime_def split: option.splits sum.splits prod.splits)

theorem NewDBPool_fails_iff_witness:
  "\<not> isl (fst (NewDBPool (\<lambda>d. None) None main_dsn main_config \<lparr>handles = [], logged = []\<rparr>))
   \<and> fst (NewDBPool (\<lambda>d. None) None main_dsn main_config \<lparr>handles = [], logged = []\<rparr>) =
       Inr \<lparr>DB = 0\<rparr>
   \<and> handles (snd (NewDBPool (\<lambda>d. None) None main_dsn main_config \<lparr>handles = [], logged = []\<rparr>)) =
       [configured main_dsn main_config]
   \<and> NewDBPool (\<lambda>d. Some ''invalid DSN'') None ''x'' main_config \<lparr>handles = [], logged = []\<rparr> =
       (Inl (Errorf ''failed to open database: '' (StoreError ''invalid DSN'')),
        \<lparr>handles = [], logged = []\<rparr>)
   \<and> fst (NewDBPool (\<lambda>d. None) (Some ''connection refused'') main_dsn main_config
            \<lparr>handles = [], logged = []\<rparr>) =
       Inl (Errorf ''failed to ping database: '' (StoreError ''connection refused''))"
  using NewDBPool_fails_iff_open_or_ping_fails
      [of "\<lambda>d. None" None main_dsn main_config "\<lparr>handles = [], logged = []\<rparr>"]
    NewDBPool_fails_iff_open_or_ping_fails
      [of "\<lambda>d. Some ''invalid DSN''" None "''x''" main_config "\<lparr>handles = [], logged = []\<rparr>"]
    NewDBPool_fails_iff_open_or_ping_fails
      [of "\<lambda>d. None" "Some ''connection refused''" main_dsn main_config
          "\<lparr>handles = [], logged = []\<rparr>"]
  by simp

text \<open>
  C9. When the open succeeds and the probe fails, \<^verbatim>\<open>NewDBPool\<close> returns no pool
  and the error of line 39, and the handle it opened and configured stays in
  the state, not closed: nothing on this path calls \<^verbatim>\<open>Close\<close>.
\<close>

theorem NewDBPool_ping_failure_leaves_handle_open:
  assumes "parse_dsn dsn = None" and "probe = Some msg"
  shows "\<exists>w'. NewDBPool parse_dsn probe dsn config w =
           (Inl (Errorf ''failed to ping database: '' (StoreError msg)), w')
         \<and> handles w' = handles w @ [configured dsn config]
         \<and> \<not> closed (handles w' ! length (handles w))"
  using assms
  by (auto simp: NewDBPool_def sql_Open_def Let_def new_handle_def configured_def DB_Ping_def
      SetMaxOpenConns_def SetMaxIdleConns_def SetConnMaxLifetime_def SetConnMaxIdleTime_def
      split: option.splits sum.splits prod.splits)

theorem NewDBPool_ping_failure_witness:
  "\<exists>w'. NewDBPool (\<lambda>d. None) (Some ''connection refused'') main_dsn main_config
            \<lparr>handles = [], logged = []\<rparr> =
           (Inl (Errorf ''failed to ping database: '' (StoreError ''connection refused'')), w')
         \<and> handles w' = [] @ [configured main_dsn main_config]
         \<and> \<not> closed (handles w' ! 0)"
  using NewDBPool_ping_failure_leaves_handle_open
      [of "\<lambda>d. None" main_dsn "Some ''connection refused''" "''connection refused''" main_config
          "\<lparr>handles = [], logged = []\<rparr>"]
  by simp

section \<open>Reading the statistics\<close>

lemma stats_call_handles: "is_stats_call c \<Longrightarrow> handles (after_call c w) = handles w"
  by (cases c) (auto dest: GetStats_world PrintStats_handles split: sum.splits)

lemma stats_calls_handles: "list_all is_stats_call cs \<Longrightarrow> handles (after_calls cs w) = handles w"
  by (induction cs arbitrary: w) (auto simp: stats_call_handles)

lemma handle_of_cong: "handles w' = handles w \<Longrightarrow> handle_of w' p = handle_of w p"
  by (simp add: handle_of_def)

text \<open>
  C6. \<^verbatim>\<open>GetStats\<close> and \<^verbatim>\<open>PrintStats\<close> only read: after any number of calls of
  them, on a pool whose handle exists, every handle is as it was, and each
  further call succeeds with the counters of the pool's handle as they are in
  the state of that call (\<^verbatim>\<open>PrintStats\<close> adds its nine lines to the log and
  changes nothing else).
\<close>

theorem stats_are_pure_reads:
  assumes "handle_of w p = Some db" and "list_all is_stats_call cs"
  shows "handles (after_calls cs w) = handles w
       \<and> GetStats p (after_calls cs w) = Inr (counters db, after_calls cs w)
       \<and> PrintStats p (after_calls cs w) =
           Inr ((after_calls cs w)\<lparr>logged := logged (after_calls cs w) @ stats_lines (counters db)\<rparr>)"
proof -
  have h: "handles (after_calls cs w) = handles w"
    using assms(2) by (rule stats_calls_handles)
  then have "handle_of (after_calls cs w) p = Some db"
    using assms(1) by (simp add: handle_of_cong [OF h])
  then show ?thesis
    using h by (simp add: GetStats_def PrintStats_def Stats_def)
qed

theorem stats_are_pure_reads_witness:
  "handles (after_calls [CallPrintStats pool0, CallGetStats pool0, CallPrintStats pool0] pool_world) =
     handles pool_world
   \<and> GetStats pool0 (after_calls [CallPrintStats pool0, CallGetStats pool0, CallPrintStats pool0] pool_world) =
       Inr (zero_stats, after_calls [CallPrintStats pool0, CallGetStats pool0, CallPrintStats pool0] pool_world)
   \<and> length (logged (after_calls [CallPrintStats pool0, CallGetStats pool0, CallPrintStats pool0] pool_world)) = 18"
proof -
  have h: "handle_of pool_world pool0 = Some (configured main_dsn main_config)"
    by (simp add: handle_of_def pool_world_def pool0_def)
  have l: "list_all is_stats_call [CallPrintStats pool0, CallGetStats pool0, CallPrintStats pool0]"
    by simp
  have c: "counters (configured main_dsn main_config) = zero_stats"
    by (simp add: configured_def)
  have n: "length (logged (after_calls [CallPrintStats pool0, CallGetStats pool0, CallPrintStats pool0] pool_world)) = 18"
    by (simp add: PrintStats_def GetStats_def h stats_lines_def pool_world_def handle_of_def pool0_def)
  show ?thesis
    using stats_are_pure_reads [OF h l] c n by simp
qed

section \<open>The start of \<^verbatim>\<open>main\<close>\<close>

lemma NewDBPool_Inl_logged:
  "NewDBPool parse_dsn probe dsn config w = (Inl err, w') \<Longrightarrow> logged w' = logged w"
  by (auto simp: NewDBPool_def sql_Open_def Let_def split: option.splits sum.splits prod.splits)

text \<open>
  C7. When \<^verbatim>\<open>NewDBPool\<close> fails, \<^verbatim>\<open>main\<close> ends in \<^verbatim>\<open>log.Fatalf\<close>: the goroutine of
  the simulator is not started, the ticker is not created, and the only line
  written is the fatal one, so no statistics are polled.
\<close>

theorem main_fatal_before_running:
  assumes "fst (NewDBPool parse_dsn probe main_dsn main_config w) = Inl err"
  shows "ended (main parse_dsn probe close_err evs w) = FatalExit
       \<and> simulator_started (main parse_dsn probe close_err evs w) = None
       \<and> ticker_started (main parse_dsn probe close_err evs w) = None
       \<and> logged (final (main parse_dsn probe close_err evs w)) =
           logged w @ [Printf ''Failed to create database pool: %v'' [ArgError err]]"
proof -
  obtain w' where n: "NewDBPool parse_dsn probe main_dsn main_config w = (Inl err, w')"
    using assms by (cases "NewDBPool parse_dsn probe main_dsn main_config w") auto
  then show ?thesis
    using NewDBPool_Inl_logged [OF n] by (simp add: main_def)
qed

theorem main_fatal_witness:
  "fst (NewDBPool (\<lambda>d. None) (Some ''connection refused'') main_dsn main_config
          \<lparr>handles = [], logged = []\<rparr>) =
     Inl (Errorf ''failed to ping database: '' (StoreError ''connection refused''))
   \<and> ended (main (\<lambda>d. None) (Some ''connection refused'') None [FromTicker, FromCh]
        \<lparr>handles = [], logged = []\<rparr>) = FatalExit
   \<and> simulator_started (main (\<lambda>d. None) (Some ''connection refused'') None [FromTicker, FromCh]
        \<lparr>handles = [], logged = []\<rparr>) = None
   \<and> ticker_started (main (\<lambda>d. None) (Some ''connection refused'') None [FromTicker, FromCh]
        \<lparr>handles = [], logged = []\<rparr>) = None
   \<and> simulator_started (main (\<lambda>d. None) None None [FromTicker, FromCh]
        \<lparr>handles = [], logged = []\<rparr>) = Some pool0
   \<and> ended (main (\<lambda>d. None) None None [FromTicker, FromCh]
        \<lparr>handles = [], logged = []\<rparr>) = MainReturned"
proof -
  have n: "fst (NewDBPool (\<lambda>d. None) (Some ''connection refused'') main_dsn main_config
          \<lparr>handles = [], logged = []\<rparr>) =
     Inl (Errorf ''failed to ping database: '' (StoreError ''connection refused''))"
    by (simp add: NewDBPool_def sql_Open_def Let_def DB_Ping_def new_handle_def
        SetMaxOpenConns_def SetMaxIdleConns_def SetConnMaxLifetime_def SetConnMaxIdleTime_def)
  have ok: "simulator_started (main (\<lambda>d. None) None None [FromTicker, FromCh]
        \<lparr>handles = [], logged = []\<rparr>) = Some pool0
     \<and> ended (main (\<lambda>d. None) None None [FromTicker, FromCh]
        \<lparr>handles = [], logged = []\<rparr>) = MainReturned"
    by (simp add: main_def NewDBPool_def sql_Open_def Let_def DB_Ping_def new_handle_def
        SetMaxOpenConns_def SetMaxIdleConns_def SetConnMaxLifetime_def SetConnMaxIdleTime_def
        PrintStats_def GetStats_def handle_of_def Close_def pool0_def)
  show ?thesis
    using n ok main_fatal_before_running [OF n, of None "[FromTicker, FromCh]"] by simp
qed


section \<open>The invariant of the runs\<close>

lemma outcomes_append [simp]: "outcomes cid (xs @ ys) = outcomes cid xs + outcomes cid ys"
  by (simp add: outcomes_def)

lemma outcomes_Nil [simp]: "outcomes cid [] = 0"
  by (simp add: outcomes_def)

lemma outcomes_single: "outcomes cid [l] = (if outcome_of cid l then 1 else 0)"
  by (simp add: outcomes_def)

lemma outcomes_stats_lines [simp]: "outcomes cid (stats_lines st) = 0"
  by (simp add: outcomes_def stats_lines_def)

lemma SimulateClientAbort_outcomes:
  "SimulateClientAbort qc p c qd aa w = Inr (r, w') \<Longrightarrow>
   outcomes cid (logged w') = outcomes cid (logged w)"
  by (auto simp: SimulateClientAbort_def Let_def outcomes_def split: option.splits if_splits)

lemma PrintStats_outcomes:
  "PrintStats p w = Inr w' \<Longrightarrow> outcomes cid (logged w') = outcomes cid (logged w)"
  by (auto simp: PrintStats_def GetStats_def split: option.splits sum.splits)

lemma SimulateClientAbort_no_panic:
  "handle_of w p \<noteq> None \<Longrightarrow> \<exists>r w'. SimulateClientAbort qc p c qd aa w = Inr (r, w')"
  by (auto simp: SimulateClientAbort_def Let_def split: option.splits)

lemma PrintStats_no_panic:
  "handle_of w p \<noteq> None \<Longrightarrow> \<exists>w'. PrintStats p w = Inr w'"
  by (auto simp: PrintStats_def GetStats_def split: option.splits)

lemma finished_le: "finished cs \<le> length cs"
  by (simp add: finished_def)

lemma finished_Nil [simp]: "finished [] = 0"
  by (simp add: finished_def)

lemma finished_snoc [simp]:
  "finished (cs @ [(c, pc)]) = finished cs + (if pc = ClientFinished then 1 else 0)"
  by (simp add: finished_def)

lemma finished_update:
  "k < length cs \<Longrightarrow> snd (cs ! k) \<noteq> ClientFinished \<Longrightarrow>
   finished (cs[k := (c, pc)]) = finished cs + (if pc = ClientFinished then 1 else 0)"
proof (induction cs arbitrary: k)
  case Nil
  then show ?case by simp
next
  case (Cons x xs)
  then show ?case
    by (cases k) (auto simp: finished_def)
qed

lemma finished_less:
  "k < length cs \<Longrightarrow> snd (cs ! k) \<noteq> ClientFinished \<Longrightarrow> finished cs < length cs"
proof (induction cs arbitrary: k)
  case Nil
  then show ?case by simp
next
  case (Cons x xs)
  show ?case
  proof (cases k)
    case 0
    with Cons.prems have "snd x \<noteq> ClientFinished" by simp
    then show ?thesis
      by (simp add: finished_def less_Suc_eq_le)
  next
    case (Suc j)
    with Cons have "finished xs < length xs" by simp
    then show ?thesis by (simp add: finished_def)
  qed
qed

lemma finished_all:
  "finished cs = length cs \<Longrightarrow> k < length cs \<Longrightarrow> snd (cs ! k) = ClientFinished"
  using finished_less [of k cs] by fastforce

lemma sim_invI:
  "crashed s = None \<Longrightarrow> handles (sys_world s) = handles w0 \<Longrightarrow> ids_ok s \<Longrightarrow> log_ok w0 s \<Longrightarrow>
   count_ok sc s \<Longrightarrow> sim_inv sc w0 s"
  by (simp add: sim_inv_def)

lemma sim_invD:
  assumes "sim_inv sc w0 s" and "crashed s = None"
  shows "handles (sys_world s) = handles w0" and "ids_ok s" and "log_ok w0 s" and "count_ok sc s"
  using assms by (simp_all add: sim_inv_def)

lemma inv_start: "sim_inv sc w0 (start w0)"
  by (simp add: sim_inv_def start_def ids_ok_def log_ok_def count_ok_def)

lemma handle_of_same: "handles w = handles w0 \<Longrightarrow> handle_of w p = handle_of w0 p"
  by (simp add: handle_of_def)

lemma ids_ok_frame:
  assumes a: "ids_ok s" and c: "clients s' = clients s"
  shows "ids_ok s'"
  using a unfolding ids_ok_def c .

lemma log_ok_frame:
  assumes a: "log_ok w0 s" and c: "clients s' = clients s"
    and o: "\<And>cid. outcomes cid (logged (sys_world s')) = outcomes cid (logged (sys_world s))"
  shows "log_ok w0 s'"
  using a unfolding log_ok_def c o .

lemma ids_ok_spawn:
  assumes a: "ids_ok s" and c: "clients s' = clients s @ [(int (length (clients s)) + 1, ClientStart)]"
  shows "ids_ok s'"
  unfolding ids_ok_def c
proof (intro allI impI)
  fix k assume "k < length (clients s @ [(int (length (clients s)) + 1, ClientStart)])"
  then consider "k < length (clients s)" | "k = length (clients s)"
    by fastforce
  then show "fst ((clients s @ [(int (length (clients s)) + 1, ClientStart)]) ! k) = int k + 1 \<and>
             \<not> panicking (snd ((clients s @ [(int (length (clients s)) + 1, ClientStart)]) ! k))"
  proof cases
    case 1
    then have "fst (clients s ! k) = int k + 1 \<and> \<not> panicking (snd (clients s ! k))"
      using a unfolding ids_ok_def by blast
    then show ?thesis using 1 by (simp add: nth_append)
  next
    case 2
    then show ?thesis by simp
  qed
qed

lemma log_ok_spawn:
  assumes a: "log_ok w0 s" and c: "clients s' = clients s @ [(cid0, ClientStart)]"
    and w: "sys_world s' = sys_world s"
  shows "log_ok w0 s'"
  unfolding log_ok_def c w
proof (intro conjI allI impI)
  fix k assume "k < length (clients s @ [(cid0, ClientStart)])"
  then consider "k < length (clients s)" | "k = length (clients s)"
    by fastforce
  then show "outcomes (int k + 1) (logged (sys_world s)) =
     outcomes (int k + 1) (logged w0) +
     (if reported (snd ((clients s @ [(cid0, ClientStart)]) ! k)) then 1 else 0)"
  proof cases
    case 1
    then have "outcomes (int k + 1) (logged (sys_world s)) =
      outcomes (int k + 1) (logged w0) + (if reported (snd (clients s ! k)) then 1 else 0)"
      using a unfolding log_ok_def by blast
    then show ?thesis using 1 by (simp add: nth_append)
  next
    case 2
    then have "int (length (clients s)) < int k + 1" by simp
    then have "outcomes (int k + 1) (logged (sys_world s)) = outcomes (int k + 1) (logged w0)"
      using a unfolding log_ok_def by blast
    then show ?thesis using 2 by simp
  qed
next
  fix cid assume "cid < 1 \<or> int (length (clients s @ [(cid0, ClientStart)])) < cid"
  then have "cid < 1 \<or> int (length (clients s)) < cid" by auto
  then show "outcomes cid (logged (sys_world s)) = outcomes cid (logged w0)"
    using a unfolding log_ok_def by blast
qed

lemma inv_caller_step:
  assumes inv: "sim_inv sc w0 s" and live: "crashed s = None"
    and valid: "handle_of w0 (sc_pool sc) \<noteq> None"
    and lo: "- 2147483648 \<le> sc_numClients sc" and hi: "sc_numClients sc < 2147483648"
  shows "sim_inv sc w0 (caller_step sc s)"
proof -
  note d = sim_invD [OF inv live]
  define s' where "s' = caller_step sc s"
  show ?thesis
    unfolding s'_def [symmetric]
  proof (cases "caller s")
    case CallerBegin
    then have e: "s' = s\<lparr>sys_world := emit (Println ''Multiple concurrent client aborts:'') (sys_world s),
            caller := CallerLog\<rparr>"
      by (simp add: s'_def caller_step_def)
    have "count_ok sc s'"
      using d(4) CallerBegin by (simp add: e count_ok_def)
    moreover have "log_ok w0 s'"
      by (rule log_ok_frame [OF d(3)]) (simp_all add: e outcomes_single)
    moreover have "ids_ok s'"
      by (rule ids_ok_frame [OF d(2)]) (simp add: e)
    ultimately show "sim_inv sc w0 s'"
      using live d(1) by (intro sim_invI) (simp_all add: e)
  next
    case CallerLog
    then have e: "s' = s\<lparr>sys_world := emit (Printf ''Simulating %d client aborts'' [ArgInt (sc_numClients sc)])
                           (sys_world s),
            caller := CallerAdd\<rparr>"
      by (simp add: s'_def caller_step_def)
    have "count_ok sc s'"
      using d(4) CallerLog by (simp add: e count_ok_def)
    moreover have "log_ok w0 s'"
      by (rule log_ok_frame [OF d(3)]) (simp_all add: e outcomes_single)
    moreover have "ids_ok s'"
      by (rule ids_ok_frame [OF d(2)]) (simp add: e)
    ultimately show "sim_inv sc w0 s'"
      using live d(1) by (intro sim_invI) (simp_all add: e)
  next
    case CallerAdd
    from d(4) CallerAdd have z: "clients s = []" "wg s = 0"
      by (simp_all add: count_ok_def)
    show "sim_inv sc w0 s'"
    proof (cases "sc_numClients sc < 0")
      case True
      then have "s' = panic_with NegativeWaitGroupCounter s"
        using CallerAdd z lo by (simp add: s'_def caller_step_def wg_Add_panic)
      then show ?thesis
        using CallerAdd True by (simp add: sim_inv_def panic_with_def)
    next
      case False
      then have e: "s' = s\<lparr>wg := nat (sc_numClients sc), caller := CallerLoop, loop_i := 0\<rparr>"
        using CallerAdd z hi by (simp add: s'_def caller_step_def wg_Add_ok)
      have "count_ok sc s'"
        using False z by (simp add: e count_ok_def)
      moreover have "log_ok w0 s'"
        by (rule log_ok_frame [OF d(3)]) (simp_all add: e)
      moreover have "ids_ok s'"
        by (rule ids_ok_frame [OF d(2)]) (simp add: e)
      ultimately show ?thesis
        using live d(1) by (intro sim_invI) (simp_all add: e)
    qed
  next
    case CallerLoop
    from d(4) CallerLoop have len: "int (length (clients s)) = loop_i s"
      and li0: "0 \<le> loop_i s" and li1: "loop_i s \<le> sc_numClients sc"
      and fin: "int (wg s) + int (finished (clients s)) = sc_numClients sc"
      by (simp_all add: count_ok_def)
    show "sim_inv sc w0 s'"
    proof (cases "loop_i s < sc_numClients sc")
      case True
      then have e: "s' = s\<lparr>clients := clients s @ [(loop_i s + 1, ClientStart)],
                            loop_i := loop_i s + 1\<rparr>"
        using CallerLoop by (simp add: s'_def caller_step_def go_client_def)
      have "count_ok sc s'"
        using True len li0 fin CallerLoop by (simp add: e count_ok_def)
      moreover have "log_ok w0 s'"
        by (rule log_ok_spawn [OF d(3), of _ "loop_i s + 1"]) (simp_all add: e)
      moreover have "ids_ok s'"
        by (rule ids_ok_spawn [OF d(2)]) (simp add: e len)
      ultimately show ?thesis
        using live d(1) by (intro sim_invI) (simp_all add: e)
    next
      case False
      then have e: "s' = s\<lparr>caller := CallerWait\<rparr>"
        using CallerLoop by (simp add: s'_def caller_step_def)
      have "count_ok sc s'"
        using False len li1 fin by (simp add: e count_ok_def)
      moreover have "log_ok w0 s'"
        by (rule log_ok_frame [OF d(3)]) (simp_all add: e)
      moreover have "ids_ok s'"
        by (rule ids_ok_frame [OF d(2)]) (simp add: e)
      ultimately show ?thesis
        using live d(1) by (intro sim_invI) (simp_all add: e)
    qed
  next
    case CallerWait
    from d(4) CallerWait have len: "int (length (clients s)) = sc_numClients sc"
      and fin: "int (wg s) + int (finished (clients s)) = sc_numClients sc"
      by (simp_all add: count_ok_def)
    show "sim_inv sc w0 s'"
    proof (cases "wg s = 0")
      case True
      then have e: "s' = s\<lparr>caller := CallerPrintStats\<rparr>"
        using CallerWait by (simp add: s'_def caller_step_def)
      have "count_ok sc s'"
        using True len fin by (simp add: e count_ok_def)
      moreover have "log_ok w0 s'"
        by (rule log_ok_frame [OF d(3)]) (simp_all add: e)
      moreover have "ids_ok s'"
        by (rule ids_ok_frame [OF d(2)]) (simp add: e)
      ultimately show ?thesis
        using live d(1) by (intro sim_invI) (simp_all add: e)
    next
      case False
      then have "s' = s"
        using CallerWait by (simp add: s'_def caller_step_def)
      then show ?thesis using inv by simp
    qed
  next
    case CallerPrintStats
    from valid have "handle_of (sys_world s) (sc_pool sc) \<noteq> None"
      by (simp add: handle_of_same [OF d(1)])
    then obtain w where w: "PrintStats (sc_pool sc) (sys_world s) = Inr w"
      using PrintStats_no_panic by blast
    then have e: "s' = s\<lparr>sys_world := w, caller := CallerSend\<rparr>"
      using CallerPrintStats by (simp add: s'_def caller_step_def)
    have "count_ok sc s'"
      using d(4) CallerPrintStats by (simp add: e count_ok_def)
    moreover have "log_ok w0 s'"
      by (rule log_ok_frame [OF d(3)]) (simp_all add: e PrintStats_outcomes [OF w])
    moreover have "ids_ok s'"
      by (rule ids_ok_frame [OF d(2)]) (simp add: e)
    ultimately show "sim_inv sc w0 s'"
      using live d(1) PrintStats_handles [OF w] by (intro sim_invI) (simp_all add: e)
  next
    case CallerSend
    then have e: "s' = s\<lparr>caller := CallerEnd\<rparr>"
      by (simp add: s'_def caller_step_def)
    have "count_ok sc s'"
      using d(4) CallerSend by (simp add: e count_ok_def)
    moreover have "log_ok w0 s'"
      by (rule log_ok_frame [OF d(3)]) (simp_all add: e)
    moreover have "ids_ok s'"
      by (rule ids_ok_frame [OF d(2)]) (simp add: e)
    ultimately show "sim_inv sc w0 s'"
      using live d(1) by (intro sim_invI) (simp_all add: e)
  next
    case CallerEnd
    then have "s' = s"
      by (simp add: s'_def caller_step_def)
    then show "sim_inv sc w0 s'" using inv by simp
  qed
qed

lemma ids_ok_set:
  assumes a: "ids_ok s" and k: "k < length (clients s)" and np: "\<not> panicking pc"
    and c: "clients s' = (clients s)[k := (fst (clients s ! k), pc)]"
  shows "ids_ok s'"
  unfolding ids_ok_def c
proof (intro allI impI)
  fix j assume "j < length ((clients s)[k := (fst (clients s ! k), pc)])"
  then have j: "j < length (clients s)" by simp
  then have old: "fst (clients s ! j) = int j + 1 \<and> \<not> panicking (snd (clients s ! j))"
    using a unfolding ids_ok_def by blast
  show "fst ((clients s)[k := (fst (clients s ! k), pc)] ! j) = int j + 1 \<and>
        \<not> panicking (snd ((clients s)[k := (fst (clients s ! k), pc)] ! j))"
    using old j k np by (cases "j = k") simp_all
qed

lemma log_ok_set:
  assumes a: "log_ok w0 s" and k: "k < length (clients s)"
    and c: "clients s' = (clients s)[k := (fst (clients s ! k), pc)]"
    and o: "\<And>cid. outcomes cid (logged (sys_world s')) =
              outcomes cid (logged (sys_world s)) + (if cid = int k + 1 then d else 0)"
    and r: "(if reported pc then 1 else 0) = (if reported (snd (clients s ! k)) then 1 else 0) + d"
  shows "log_ok w0 s'"
  unfolding log_ok_def c
proof (intro conjI allI impI)
  fix j assume "j < length ((clients s)[k := (fst (clients s ! k), pc)])"
  then have j: "j < length (clients s)" by simp
  then have old: "outcomes (int j + 1) (logged (sys_world s)) =
      outcomes (int j + 1) (logged w0) + (if reported (snd (clients s ! j)) then 1 else 0)"
    using a unfolding log_ok_def by blast
  show "outcomes (int j + 1) (logged (sys_world s')) =
     outcomes (int j + 1) (logged w0) +
     (if reported (snd ((clients s)[k := (fst (clients s ! k), pc)] ! j)) then 1 else 0)"
  proof (cases "j = k")
    case True
    have "outcomes (int k + 1) (logged (sys_world s')) =
        outcomes (int k + 1) (logged (sys_world s)) + d"
      using o [of "int k + 1"] by simp
    then show ?thesis
      using old r k True by simp
  next
    case False
    have "outcomes (int j + 1) (logged (sys_world s')) = outcomes (int j + 1) (logged (sys_world s))"
      using o [of "int j + 1"] False by simp
    then show ?thesis
      using old False j by simp
  qed
next
  fix cid assume "cid < 1 \<or> int (length ((clients s)[k := (fst (clients s ! k), pc)])) < cid"
  then have out: "cid < 1 \<or> int (length (clients s)) < cid" by simp
  then have "outcomes cid (logged (sys_world s)) = outcomes cid (logged w0)"
    using a unfolding log_ok_def by blast
  moreover have "cid \<noteq> int k + 1"
    using out k by auto
  ultimately show "outcomes cid (logged (sys_world s')) = outcomes cid (logged w0)"
    using o [of cid] by simp
qed

lemma count_ok_set:
  assumes a: "count_ok sc s" and k: "k < length (clients s)"
    and old: "snd (clients s ! k) \<noteq> ClientFinished" and new: "pc \<noteq> ClientFinished"
    and c: "clients s' = (clients s)[k := (fst (clients s ! k), pc)]"
    and same: "caller s' = caller s" "wg s' = wg s" "loop_i s' = loop_i s"
  shows "count_ok sc s'"
proof -
  have f: "finished (clients s') = finished (clients s)"
    using finished_update [OF k old, of "fst (clients s ! k)" pc] new by (simp add: c)
  have l: "length (clients s') = length (clients s)"
    by (simp add: c)
  have e: "clients s' = [] \<longleftrightarrow> clients s = []"
    using l by (metis length_0_conv)
  show ?thesis
    using a unfolding count_ok_def same f l e .
qed

lemma count_ok_done:
  assumes a: "count_ok sc s" and k: "k < length (clients s)"
    and old: "snd (clients s ! k) \<noteq> ClientFinished"
  shows "0 < wg s"
    and "sc_numClients sc < 2147483648 \<Longrightarrow> int (wg s) < 2147483648"
    and "clients s' = (clients s)[k := (fst (clients s ! k), ClientFinished)] \<Longrightarrow>
         caller s' = caller s \<Longrightarrow> wg s' = wg s - 1 \<Longrightarrow> loop_i s' = loop_i s \<Longrightarrow> count_ok sc s'"
proof -
  have fl: "finished (clients s) < length (clients s)"
    using finished_less [OF k old] .
  have ne: "clients s \<noteq> []"
    using k by auto
  have pos: "0 < wg s \<and> \<not> wait_returned (caller s) \<and> (caller s = CallerLoop \<or> caller s = CallerWait)"
    using a fl ne by (cases "caller s") (auto simp: count_ok_def)
  then show "0 < wg s" by simp
  show "int (wg s) < 2147483648" if "sc_numClients sc < 2147483648"
    using a pos that by (auto simp: count_ok_def)
  assume c: "clients s' = (clients s)[k := (fst (clients s ! k), ClientFinished)]"
    and same: "caller s' = caller s" "wg s' = wg s - 1" "loop_i s' = loop_i s"
  have f: "finished (clients s') = finished (clients s) + 1"
    using finished_update [OF k old, of "fst (clients s ! k)" ClientFinished] by (simp add: c)
  have l: "length (clients s') = length (clients s)"
    by (simp add: c)
  show "count_ok sc s'"
    using a pos by (auto simp: count_ok_def same f l)
qed

lemma inv_client_step:
  assumes inv: "sim_inv sc w0 s" and live: "crashed s = None"
    and valid: "handle_of w0 (sc_pool sc) \<noteq> None" and k: "k < length (clients s)"
    and hi: "sc_numClients sc < 2147483648"
  shows "sim_inv sc w0 (client_step sc k s)"
proof -
  note d = sim_invD [OF inv live]
  define s' where "s' = client_step sc k s"
  have idk: "fst (clients s ! k) = int k + 1" and npk: "\<not> panicking (snd (clients s ! k))"
    using d(2) k unfolding ids_ok_def by blast+
  show ?thesis
    unfolding s'_def [symmetric]
  proof (cases "snd (clients s ! k)")
    case ClientStart
    then have e: "s' = set_client k ClientCall
               (s\<lparr>sys_world := emit (Printf ''Client %d: Starting simulation'' [ArgInt (int k + 1)])
                                (sys_world s)\<rparr>)"
      by (simp add: s'_def client_step_def idk)
    have "count_ok sc s'"
      by (rule count_ok_set [OF d(4) k, of ClientCall]) (simp_all add: e set_client_def ClientStart)
    moreover have "log_ok w0 s'"
      by (rule log_ok_set [OF d(3) k, of _ ClientCall 0])
        (simp_all add: e set_client_def ClientStart outcomes_single)
    moreover have "ids_ok s'"
      by (rule ids_ok_set [OF d(2) k, of ClientCall]) (simp_all add: e set_client_def)
    ultimately show "sim_inv sc w0 s'"
      using live d(1) by (intro sim_invI) (simp_all add: e set_client_def)
  next
    case ClientCall
    from valid have "handle_of (sys_world s) (sc_pool sc) \<noteq> None"
      by (simp add: handle_of_same [OF d(1)])
    then obtain err w where w: "SimulateClientAbort (sc_query sc (int k + 1)) (sc_pool sc) (sc_ctx sc)
        (sc_queryDuration sc) (sc_abortAfter sc) (sys_world s) = Inr (err, w)"
      using SimulateClientAbort_no_panic by blast
    then have e: "s' = set_client k (ClientReport err) (s\<lparr>sys_world := w\<rparr>)"
      using ClientCall by (simp add: s'_def client_step_def idk)
    have "count_ok sc s'"
      by (rule count_ok_set [OF d(4) k, of "ClientReport err"])
        (simp_all add: e set_client_def ClientCall)
    moreover have "log_ok w0 s'"
      by (rule log_ok_set [OF d(3) k, of _ "ClientReport err" 0])
        (simp_all add: e set_client_def ClientCall SimulateClientAbort_outcomes [OF w])
    moreover have "ids_ok s'"
      by (rule ids_ok_set [OF d(2) k, of "ClientReport err"]) (simp_all add: e set_client_def)
    ultimately show "sim_inv sc w0 s'"
      using live d(1) SimulateClientAbort_handles [OF w]
      by (intro sim_invI) (simp_all add: e set_client_def)
  next
    case (ClientReport err)
    then have e: "s' = set_client k ClientDeferred
               (s\<lparr>sys_world :=
                    emit (case err of
                            Some e \<Rightarrow> Printf ''Client %d: %v'' [ArgInt (int k + 1), ArgError e]
                          | None \<Rightarrow> Printf ''Client %d: Completed successfully'' [ArgInt (int k + 1)])
                      (sys_world s)\<rparr>)"
      by (simp add: s'_def client_step_def idk Let_def)
    have "count_ok sc s'"
      by (rule count_ok_set [OF d(4) k, of ClientDeferred])
        (simp_all add: e set_client_def ClientReport)
    moreover have "log_ok w0 s'"
      by (rule log_ok_set [OF d(3) k, of _ ClientDeferred 1])
        (auto simp: e set_client_def ClientReport outcomes_single split: option.splits)
    moreover have "ids_ok s'"
      by (rule ids_ok_set [OF d(2) k, of ClientDeferred]) (simp_all add: e set_client_def)
    ultimately show "sim_inv sc w0 s'"
      using live d(1) by (intro sim_invI) (simp_all add: e set_client_def)
  next
    case ClientDeferred
    then have old: "snd (clients s ! k) \<noteq> ClientFinished" by simp
    have pos: "0 < wg s"
      using count_ok_done(1) [OF d(4) k old] .
    have bound: "int (wg s) < 2147483648"
      using count_ok_done(2) [OF d(4) k old hi] .
    have "wg_Done (wg s) = Inr (wg s - 1)"
      using pos bound by (simp add: wg_Done_def wg_Add_ok nat_diff_distrib)
    then have e: "s' = set_client k ClientFinished (s\<lparr>wg := wg s - 1\<rparr>)"
      using ClientDeferred by (simp add: s'_def client_step_def)
    have "count_ok sc s'"
      by (rule count_ok_done(3) [OF d(4) k old]) (simp_all add: e set_client_def)
    moreover have "log_ok w0 s'"
      by (rule log_ok_set [OF d(3) k, of _ ClientFinished 0])
        (simp_all add: e set_client_def ClientDeferred)
    moreover have "ids_ok s'"
      by (rule ids_ok_set [OF d(2) k, of ClientFinished]) (simp_all add: e set_client_def)
    ultimately show "sim_inv sc w0 s'"
      using live d(1) by (intro sim_invI) (simp_all add: e set_client_def)
  next
    case (ClientPanicking pn)
    then show "sim_inv sc w0 s'" using npk by simp
  next
    case (ClientDying pn)
    then show "sim_inv sc w0 s'" using npk by simp
  next
    case ClientFinished
    then have "s' = s"
      by (simp add: s'_def client_step_def)
    then show "sim_inv sc w0 s'" using inv by simp
  qed
qed

lemma inv_step:
  assumes inv: "sim_inv sc w0 s" and valid: "handle_of w0 (sc_pool sc) \<noteq> None"
    and lo: "- 2147483648 \<le> sc_numClients sc" and hi: "sc_numClients sc < 2147483648"
  shows "sim_inv sc w0 (step sc t s)"
proof (cases "crashed s = None")
  case False
  then show ?thesis using inv by (simp add: step_def)
next
  case True
  show ?thesis
  proof (cases t)
    case Caller
    then show ?thesis
      using True inv_caller_step [OF inv True valid lo hi] by (simp add: step_def)
  next
    case (Client k)
    show ?thesis
    proof (cases "k < length (clients s)")
      case k: True
      then show ?thesis
        using True Client inv_client_step [OF inv True valid k hi] by (simp add: step_def)
    next
      case False
      then show ?thesis using True Client inv by (simp add: step_def)
    qed
  qed
qed

lemma inv_run:
  assumes "sim_inv sc w0 s" and "handle_of w0 (sc_pool sc) \<noteq> None"
    and "- 2147483648 \<le> sc_numClients sc" and "sc_numClients sc < 2147483648"
  shows "sim_inv sc w0 (run sc sched s)"
  using assms
proof (induction sched arbitrary: s)
  case Nil
  then show ?case by simp
next
  case (Cons t ts)
  then show ?case by (simp add: inv_step)
qed

text \<open>
  C1, as stated, has \<^verbatim>\<open>SimulateMultipleClientAborts\<close> return only after its
  clients have finished. It returns as soon as they are started: with one
  client, when the caller has taken its five steps up to \<^verbatim>\<open>wg.Wait()\<close>, the call
  has returned, the client has not begun and no outcome is logged; the function
  on its own returns with the counter at 1 and the client at its start.
\<close>

theorem SimulateMultipleClientAborts_returns_before_clients_counterexample:
  "call_returned (caller (run one_client [Caller, Caller, Caller, Caller, Caller] (start pool_world)))
   \<and> clients (run one_client [Caller, Caller, Caller, Caller, Caller] (start pool_world)) =
       [(1, ClientStart)]
   \<and> outcomes 1 (logged (sys_world
        (run one_client [Caller, Caller, Caller, Caller, Caller] (start pool_world)))) = 0
   \<and> wg (SimulateMultipleClientAborts 1 (start pool_world)) = 1
   \<and> clients (SimulateMultipleClientAborts 1 (start pool_world)) = [(1, ClientStart)]"
proof -
  have "wg (SimulateMultipleClientAborts 1 (start pool_world)) = 1
    \<and> clients (SimulateMultipleClientAborts 1 (start pool_world)) = [(1, ClientStart)]"
    by (simp add: SimulateMultipleClientAborts_def Let_def wg_Add_def int32_def start_def
        go_client_def)
  then show ?thesis
    by (simp add: step_def caller_step_def start_def one_client_def wg_Add_def int32_def
        go_client_def pool_world_def emit_def outcomes_def)
qed

text \<open>
  C1, amended. In every run of \<^verbatim>\<open>simulateClientAborts\<close> on a pool whose handle
  exists, with a \<^verbatim>\<open>numClients\<close> that the 32 bits of the wait group's counter can
  hold, under every schedule: once \<^verbatim>\<open>wg.Wait()\<close> has returned in the caller, the
  program has not panicked, exactly \<^verbatim>\<open>numClients\<close> client goroutines were started,
  with the identifiers 1 to \<^verbatim>\<open>numClients\<close>, all of them have finished, and the log
  holds exactly one new outcome line for each of these identifiers and none
  for any other.
\<close>

theorem wait_returns_after_all_clients_finished:
  assumes valid: "handle_of w0 (sc_pool sc) \<noteq> None"
    and lo: "- 2147483648 \<le> sc_numClients sc" and hi: "sc_numClients sc < 2147483648"
    and past: "wait_returned (caller (run sc sched (start w0)))"
  shows "crashed (run sc sched (start w0)) = None
       \<and> int (length (clients (run sc sched (start w0)))) = sc_numClients sc
       \<and> (\<forall>k<length (clients (run sc sched (start w0))).
            clients (run sc sched (start w0)) ! k = (int k + 1, ClientFinished))
       \<and> (\<forall>cid. outcomes cid (logged (sys_world (run sc sched (start w0)))) =
            outcomes cid (logged w0) + (if 1 \<le> cid \<and> cid \<le> sc_numClients sc then 1 else 0))"
proof -
  define s where "s = run sc sched (start w0)"
  have inv: "sim_inv sc w0 s"
    unfolding s_def by (rule inv_run [OF inv_start valid lo hi])
  have wr: "wait_returned (caller s)"
    using past by (simp add: s_def)
  have live: "crashed s = None"
  proof (rule ccontr)
    assume "crashed s \<noteq> None"
    then have "caller s = CallerAdd" using inv by (simp add: sim_inv_def)
    then show False using wr by simp
  qed
  note d = sim_invD [OF inv live]
  from d(4) wr have len: "int (length (clients s)) = sc_numClients sc"
    and fin: "finished (clients s) = length (clients s)"
    by (simp_all add: count_ok_def)
  have all: "\<forall>k<length (clients s). clients s ! k = (int k + 1, ClientFinished)"
  proof (intro allI impI)
    fix k assume k: "k < length (clients s)"
    have "snd (clients s ! k) = ClientFinished"
      using finished_all [OF fin k] .
    moreover have "fst (clients s ! k) = int k + 1"
      using d(2) k unfolding ids_ok_def by blast
    ultimately show "clients s ! k = (int k + 1, ClientFinished)"
      by (simp add: prod_eq_iff)
  qed
  have out: "\<forall>cid. outcomes cid (logged (sys_world s)) =
            outcomes cid (logged w0) + (if 1 \<le> cid \<and> cid \<le> sc_numClients sc then 1 else 0)"
  proof
    fix cid
    show "outcomes cid (logged (sys_world s)) =
            outcomes cid (logged w0) + (if 1 \<le> cid \<and> cid \<le> sc_numClients sc then 1 else 0)"
    proof (cases "1 \<le> cid \<and> cid \<le> sc_numClients sc")
      case True
      define k where "k = nat (cid - 1)"
      have ik: "int k = cid - 1"
        using True by (simp add: k_def)
      have k: "k < length (clients s)"
        using ik True len by linarith
      have ck: "cid = int k + 1"
        using ik by simp
      have "outcomes (int k + 1) (logged (sys_world s)) =
          outcomes (int k + 1) (logged w0) + (if reported (snd (clients s ! k)) then 1 else 0)"
        using d(3) k unfolding log_ok_def by blast
      moreover have "reported (snd (clients s ! k))"
        using all k by simp
      ultimately show ?thesis using True ck by simp
    next
      case False
      then have "cid < 1 \<or> int (length (clients s)) < cid"
        using len by auto
      then have "outcomes cid (logged (sys_world s)) = outcomes cid (logged w0)"
        using d(3) unfolding log_ok_def by blast
      then show ?thesis using False by simp
    qed
  qed
  show ?thesis
    unfolding s_def [symmetric] using live len all out by blast
qed

lemmas eval_defs = step_def caller_step_def client_step_def set_client_def start_def
  wg_Add_def wg_Done_def int32_def go_client_def panic_with_def pool_world_def pool0_def emit_def
  SimulateClientAbort_def PrintStats_def GetStats_def handle_of_def Let_def
  DB_QueryContext_def sleeping_store_def configured_def minute_def Stats_def

lemma one_client_run:
  "caller (run one_client one_client_schedule (start pool_world)) = CallerEnd"
  by (simp add: one_client_schedule_def one_client_def eval_defs)

theorem wait_returns_after_all_clients_witness:
  "wait_returned (caller (run one_client one_client_schedule (start pool_world)))
   \<and> clients (run one_client one_client_schedule (start pool_world)) = [(1, ClientFinished)]
   \<and> outcomes 1 (logged (sys_world (run one_client one_client_schedule (start pool_world)))) = 1"
proof -
  have v: "handle_of pool_world (sc_pool one_client) \<noteq> None"
    by (simp add: handle_of_def pool_world_def one_client_def pool0_def)
  have p: "wait_returned (caller (run one_client one_client_schedule (start pool_world)))"
    by (simp add: one_client_run)
  have n: "sc_numClients one_client = 1"
    by (simp add: one_client_def)
  have o: "outcomes 1 (logged pool_world) = 0"
    by (simp add: pool_world_def)
  have lo: "- 2147483648 \<le> sc_numClients one_client" and hi: "sc_numClients one_client < 2147483648"
    by (simp_all add: n)
  from wait_returns_after_all_clients_finished [OF v lo hi p] have
    len: "int (length (clients (run one_client one_client_schedule (start pool_world)))) = 1"
    and all: "\<forall>k<length (clients (run one_client one_client_schedule (start pool_world))).
            clients (run one_client one_client_schedule (start pool_world)) ! k =
              (int k + 1, ClientFinished)"
    and out: "\<forall>cid. outcomes cid (logged (sys_world (run one_client one_client_schedule (start pool_world)))) =
            outcomes cid (logged pool_world) + (if 1 \<le> cid \<and> cid \<le> 1 then 1 else 0)"
    by (simp_all add: n)
  from len obtain x where x: "clients (run one_client one_client_schedule (start pool_world)) = [x]"
    by (cases "clients (run one_client one_client_schedule (start pool_world))") auto
  with all have "x = (1, ClientFinished)" by simp
  then show ?thesis
    using p x out o by simp
qed

section \<open>The caller alone, and runs to the end\<close>

text \<open>
  Taking its steps without interruption from line 100 on, the caller of the
  runs does what the function \<open>SimulateMultipleClientAborts\<close> does, and then
  stands before \<^verbatim>\<open>wg.Wait()\<close>.
\<close>

lemma run_append: "run sc (xs @ ys) s = run sc ys (run sc xs s)"
  by (induction xs arbitrary: s) simp_all

lemma spawn_clients_loop_i:
  "spawn_clients i n (s\<lparr>loop_i := x\<rparr>) = (spawn_clients i n s)\<lparr>loop_i := x\<rparr>"
proof (induction i n s rule: spawn_clients.induct)
  case (1 i n s)
  show ?case
  proof (cases "i < n")
    case True
    have "go_client (i + 1) (s\<lparr>loop_i := x\<rparr>) = (go_client (i + 1) s)\<lparr>loop_i := x\<rparr>"
      by (simp add: go_client_def)
    then show ?thesis
      using True 1 by (simp del: spawn_clients.simps add: spawn_clients.simps [of i n])
  next
    case False
    then show ?thesis by simp
  qed
qed

lemma spawn_clients_caller:
  "spawn_clients i n (s\<lparr>caller := x\<rparr>) = (spawn_clients i n s)\<lparr>caller := x\<rparr>"
proof (induction i n s rule: spawn_clients.induct)
  case (1 i n s)
  show ?case
  proof (cases "i < n")
    case True
    have "go_client (i + 1) (s\<lparr>caller := x\<rparr>) = (go_client (i + 1) s)\<lparr>caller := x\<rparr>"
      by (simp add: go_client_def)
    then show ?thesis
      using True 1 by (simp del: spawn_clients.simps add: spawn_clients.simps [of i n])
  next
    case False
    then show ?thesis by simp
  qed
qed

lemma spawn_loop_refines:
  assumes "caller s = CallerLoop" and "crashed s = None" and "loop_i s \<le> sc_numClients sc"
    and "nat (sc_numClients sc - loop_i s) = m"
  shows "run sc (replicate (Suc m) Caller) s =
           (spawn_clients (loop_i s) (sc_numClients sc) s)\<lparr>caller := CallerWait,
              loop_i := sc_numClients sc\<rparr>"
  using assms
proof (induction m arbitrary: s)
  case 0
  then have "loop_i s = sc_numClients sc" by simp
  then show ?case
    using 0 by (simp add: step_def caller_step_def)
next
  case (Suc m)
  define s' where "s' = (go_client (loop_i s + 1) s)\<lparr>loop_i := loop_i s + 1\<rparr>"
  have lt: "loop_i s < sc_numClients sc"
    using Suc.prems(4) by simp
  have st: "step sc Caller s = s'"
    using lt Suc.prems by (simp add: step_def caller_step_def s'_def)
  have p: "caller s' = CallerLoop" "crashed s' = None" "loop_i s' \<le> sc_numClients sc"
    "nat (sc_numClients sc - loop_i s') = m" "loop_i s' = loop_i s + 1"
    using lt Suc.prems by (simp_all add: s'_def go_client_def)
  have "run sc (replicate (Suc (Suc m)) Caller) s = run sc (replicate (Suc m) Caller) s'"
    by (simp add: st del: spawn_clients.simps)
  also have "\<dots> = (spawn_clients (loop_i s') (sc_numClients sc) s')\<lparr>caller := CallerWait,
              loop_i := sc_numClients sc\<rparr>"
    using Suc.IH [OF p(1,2,3,4)] .
  also have "spawn_clients (loop_i s') (sc_numClients sc) s' =
      (spawn_clients (loop_i s + 1) (sc_numClients sc) (go_client (loop_i s + 1) s))\<lparr>loop_i := loop_i s + 1\<rparr>"
    by (simp only: p(5)) (simp only: s'_def spawn_clients_loop_i)
  also have "spawn_clients (loop_i s + 1) (sc_numClients sc) (go_client (loop_i s + 1) s) =
      spawn_clients (loop_i s) (sc_numClients sc) s"
    using lt by (simp add: spawn_clients.simps [of "loop_i s"] del: spawn_clients.simps)
  finally show ?case
    by (simp del: spawn_clients.simps)
qed

lemma caller_alone_refines:
  assumes "caller s = CallerLog" and "crashed s = None" and "0 \<le> int (wg s) + sc_numClients sc"
    and "0 \<le> sc_numClients sc" and "int (wg s) + sc_numClients sc < 2147483648"
  shows "run sc (replicate (nat (sc_numClients sc) + 3) Caller) s =
           (SimulateMultipleClientAborts (sc_numClients sc) s)\<lparr>caller := CallerWait,
              loop_i := sc_numClients sc\<rparr>"
proof -
  define s1 where "s1 = s\<lparr>sys_world := emit (Printf ''Simulating %d client aborts''
      [ArgInt (sc_numClients sc)]) (sys_world s)\<rparr>"
  define s2 where "s2 = s1\<lparr>wg := nat (int (wg s) + sc_numClients sc), caller := CallerLoop, loop_i := 0\<rparr>"
  have a: "step sc Caller s = s1\<lparr>caller := CallerAdd\<rparr>"
    using assms by (simp add: step_def caller_step_def s1_def)
  have b: "step sc Caller (s1\<lparr>caller := CallerAdd\<rparr>) = s2"
    using assms by (simp add: step_def caller_step_def s1_def s2_def wg_Add_ok)
  have p: "caller s2 = CallerLoop" "crashed s2 = None" "loop_i s2 \<le> sc_numClients sc"
    "nat (sc_numClients sc - loop_i s2) = nat (sc_numClients sc)" "loop_i s2 = 0"
    using assms by (simp_all add: s2_def s1_def)
  have n: "nat (sc_numClients sc) + 3 = Suc (Suc (Suc (nat (sc_numClients sc))))"
    by simp
  have "run sc (replicate (nat (sc_numClients sc) + 3) Caller) s =
      run sc (replicate (Suc (nat (sc_numClients sc))) Caller) s2"
    unfolding n by (simp add: a b del: spawn_clients.simps)
  also have "\<dots> = (spawn_clients 0 (sc_numClients sc) s2)\<lparr>caller := CallerWait,
              loop_i := sc_numClients sc\<rparr>"
    using spawn_loop_refines [OF p(1,2,3,4)] by (simp only: p(5))
  also have "spawn_clients 0 (sc_numClients sc) s2 =
      (spawn_clients 0 (sc_numClients sc) (s1\<lparr>wg := nat (int (wg s) + sc_numClients sc), caller := CallerLoop\<rparr>))\<lparr>loop_i := 0\<rparr>"
    by (simp only: s2_def spawn_clients_loop_i)
  also have "spawn_clients 0 (sc_numClients sc)
        (s1\<lparr>wg := nat (int (wg s) + sc_numClients sc), caller := CallerLoop\<rparr>) =
      (spawn_clients 0 (sc_numClients sc) (s1\<lparr>wg := nat (int (wg s) + sc_numClients sc)\<rparr>))\<lparr>caller := CallerLoop\<rparr>"
    by (simp only: spawn_clients_caller)
  also have "spawn_clients 0 (sc_numClients sc) (s1\<lparr>wg := nat (int (wg s) + sc_numClients sc)\<rparr>) =
      SimulateMultipleClientAborts (sc_numClients sc) s"
    using assms(3,5) by (simp add: SimulateMultipleClientAborts_def Let_def wg_Add_ok s1_def
        del: spawn_clients.simps)
  finally show ?thesis
    by (simp del: spawn_clients.simps)
qed


text \<open>
  No run is stuck: with a pool whose handle exists and \<^verbatim>\<open>numClients\<close> from 0
  below \<open>2 ^ 31\<close>, every run can be continued until \<^verbatim>\<open>simulateClientAborts\<close> has ended,
  without a panic. So the hypothesis of the join property above (\<^verbatim>\<open>wg.Wait()\<close>
  has returned) can be met for every such \<^verbatim>\<open>numClients\<close>.
\<close>

lemma rank_update:
  assumes "k < length cs" and "client_rank (snd (cs ! k)) = Suc r" and "client_rank pc = r"
  shows "Suc (sum_list (map (\<lambda>c. client_rank (snd c)) (cs[k := (x, pc)]))) =
         sum_list (map (\<lambda>c. client_rank (snd c)) cs)"
  using assms
proof (induction cs arbitrary: k)
  case Nil
  then show ?case by simp
next
  case (Cons c cs)
  then show ?case by (cases k) simp_all
qed

lemma unfinished_client:
  assumes "finished cs < length cs"
  shows "\<exists>k<length cs. snd (cs ! k) \<noteq> ClientFinished"
proof (rule ccontr)
  assume "\<not> (\<exists>k<length cs. snd (cs ! k) \<noteq> ClientFinished)"
  then have "\<forall>c\<in>set cs. snd c = ClientFinished"
    by (metis in_set_conv_nth)
  then have "filter (\<lambda>c. snd c = ClientFinished) cs = cs"
    by simp
  then show False using assms by (simp add: finished_def)
qed

lemma client_progress:
  assumes inv: "sim_inv sc w0 s" and live: "crashed s = None"
    and valid: "handle_of w0 (sc_pool sc) \<noteq> None" and k: "k < length (clients s)"
    and nf: "snd (clients s ! k) \<noteq> ClientFinished" and hi: "sc_numClients sc < 2147483648"
  shows "crashed (step sc (Client k) s) = None
       \<and> Suc (steps_left sc (step sc (Client k) s)) = steps_left sc s"
proof -
  note d = sim_invD [OF inv live]
  have idk: "fst (clients s ! k) = int k + 1" and npk: "\<not> panicking (snd (clients s ! k))"
    using d(2) k unfolding ids_ok_def by blast+
  have st: "step sc (Client k) s = client_step sc k s"
    using live k by (simp add: step_def)
  show ?thesis
  proof (cases "snd (clients s ! k)")
    case ClientStart
    then show ?thesis
      using live k rank_update [OF k, of 3 ClientCall]
      by (simp add: st client_step_def Let_def set_client_def steps_left_def)
  next
    case ClientCall
    from valid have "handle_of (sys_world s) (sc_pool sc) \<noteq> None"
      by (simp add: handle_of_same [OF d(1)])
    then obtain err w where w: "SimulateClientAbort (sc_query sc (int k + 1)) (sc_pool sc) (sc_ctx sc)
        (sc_queryDuration sc) (sc_abortAfter sc) (sys_world s) = Inr (err, w)"
      using SimulateClientAbort_no_panic by blast
    then show ?thesis
      using ClientCall live k rank_update [OF k, of 2 "ClientReport err"]
      by (simp add: st client_step_def Let_def set_client_def steps_left_def idk)
  next
    case (ClientReport err)
    then show ?thesis
      using live k rank_update [OF k, of 1 ClientDeferred]
      by (simp add: st client_step_def Let_def set_client_def steps_left_def)
  next
    case ClientDeferred
    have pos: "0 < wg s"
      using count_ok_done(1) [OF d(4) k nf] .
    have bound: "int (wg s) < 2147483648"
      using count_ok_done(2) [OF d(4) k nf hi] .
    have "wg_Done (wg s) = Inr (wg s - 1)"
      using pos bound by (simp add: wg_Done_def wg_Add_ok nat_diff_distrib)
    then show ?thesis
      using ClientDeferred live k rank_update [OF k, of 0 ClientFinished]
      by (simp add: st client_step_def Let_def set_client_def steps_left_def)
  next
    case (ClientPanicking pn)
    then show ?thesis using npk by simp
  next
    case (ClientDying pn)
    then show ?thesis using npk by simp
  next
    case ClientFinished
    then show ?thesis using nf by simp
  qed
qed

lemma caller_progress:
  assumes inv: "sim_inv sc w0 s" and live: "crashed s = None"
    and valid: "handle_of w0 (sc_pool sc) \<noteq> None" and n: "0 \<le> sc_numClients sc"
    and hi: "sc_numClients sc < 2147483648"
    and ne: "caller s \<noteq> CallerEnd" and w: "caller s = CallerWait \<longrightarrow> wg s = 0"
  shows "crashed (step sc Caller s) = None
       \<and> Suc (steps_left sc (step sc Caller s)) = steps_left sc s"
proof -
  note d = sim_invD [OF inv live]
  have st: "step sc Caller s = caller_step sc s"
    using live by (simp add: step_def)
  show ?thesis
  proof (cases "caller s")
    case CallerBegin
    then show ?thesis using live by (simp add: st caller_step_def steps_left_def)
  next
    case CallerLog
    then show ?thesis using live by (simp add: st caller_step_def steps_left_def)
  next
    case CallerAdd
    with d(4) have "wg s = 0"
      by (simp add: count_ok_def)
    then show ?thesis
      using CallerAdd live n hi by (simp add: st caller_step_def steps_left_def wg_Add_ok)
  next
    case CallerLoop
    from d(4) CallerLoop have len: "int (length (clients s)) = loop_i s"
      and li1: "loop_i s \<le> sc_numClients sc"
      by (simp_all add: count_ok_def)
    show ?thesis
    proof (cases "loop_i s < sc_numClients sc")
      case True
      have "nat (sc_numClients sc - int (length (clients s))) =
          Suc (nat (sc_numClients sc - (1 + int (length (clients s)))))"
        using True len by simp
      then show ?thesis
        using True CallerLoop live len
        by (simp add: st caller_step_def steps_left_def go_client_def)
    next
      case False
      then show ?thesis
        using CallerLoop live by (simp add: st caller_step_def steps_left_def)
    qed
  next
    case CallerWait
    then show ?thesis
      using live w by (simp add: st caller_step_def steps_left_def)
  next
    case CallerPrintStats
    from valid have "handle_of (sys_world s) (sc_pool sc) \<noteq> None"
      by (simp add: handle_of_same [OF d(1)])
    then obtain w' where "PrintStats (sc_pool sc) (sys_world s) = Inr w'"
      using PrintStats_no_panic by blast
    then show ?thesis
      using CallerPrintStats live by (simp add: st caller_step_def steps_left_def)
  next
    case CallerSend
    then show ?thesis using live by (simp add: st caller_step_def steps_left_def)
  next
    case CallerEnd
    then show ?thesis using ne by simp
  qed
qed

lemma can_complete:
  assumes valid: "handle_of w0 (sc_pool sc) \<noteq> None" and n: "0 \<le> sc_numClients sc"
    and hi: "sc_numClients sc < 2147483648"
  shows "sim_inv sc w0 s \<Longrightarrow> crashed s = None \<Longrightarrow> steps_left sc s = m \<Longrightarrow>
         \<exists>more. caller (run sc more s) = CallerEnd \<and> crashed (run sc more s) = None"
proof (induction m arbitrary: s rule: less_induct)
  case (less m)
  note d = sim_invD [OF less.prems(1,2)]
  show ?case
  proof (cases "caller s = CallerEnd")
    case True
    then have "caller (run sc [] s) = CallerEnd \<and> crashed (run sc [] s) = None"
      using less.prems(2) by simp
    then show ?thesis by blast
  next
    case False
    have "\<exists>t. crashed (step sc t s) = None \<and> Suc (steps_left sc (step sc t s)) = steps_left sc s"
    proof (cases "caller s = CallerWait \<and> wg s \<noteq> 0")
      case True
      with d(4) have "finished (clients s) < length (clients s)"
        by (simp add: count_ok_def)
      then obtain k where k: "k < length (clients s)" "snd (clients s ! k) \<noteq> ClientFinished"
        using unfinished_client by blast
      show ?thesis
        using client_progress [OF less.prems(1,2) valid k hi] by blast
    next
      case w: False
      then have "caller s = CallerWait \<longrightarrow> wg s = 0" by blast
      then show ?thesis
        using caller_progress [OF less.prems(1,2) valid n hi False] by blast
    qed
    then obtain t where t: "crashed (step sc t s) = None"
      "Suc (steps_left sc (step sc t s)) = steps_left sc s"
      by blast
    have lt: "steps_left sc (step sc t s) < m"
      using t(2) less.prems(3) by simp
    have "sim_inv sc w0 (step sc t s)"
      using inv_step [OF less.prems(1) valid _ hi] n by simp
    from less.IH [OF lt this t(1) refl]
    obtain more where "caller (run sc more (step sc t s)) = CallerEnd
        \<and> crashed (run sc more (step sc t s)) = None"
      by blast
    then have "caller (run sc (t # more) s) = CallerEnd \<and> crashed (run sc (t # more) s) = None"
      by simp
    then show ?thesis by blast
  qed
qed

lemma every_run_can_complete:
  assumes valid: "handle_of w0 (sc_pool sc) \<noteq> None" and n: "0 \<le> sc_numClients sc"
    and hi: "sc_numClients sc < 2147483648"
  shows "\<exists>more. caller (run sc (sched @ more) (start w0)) = CallerEnd
            \<and> crashed (run sc (sched @ more) (start w0)) = None"
proof -
  have inv: "sim_inv sc w0 (run sc sched (start w0))"
    using inv_run [OF inv_start valid _ hi] n by simp
  show ?thesis
  proof (cases "crashed (run sc sched (start w0)) = None")
    case True
    show ?thesis
      using can_complete [OF valid n hi inv True refl] by (simp add: run_append)
  next
    case False
    then have "sc_numClients sc < 0"
      using inv by (simp add: sim_inv_def)
    then show ?thesis using n by simp
  qed
qed


section \<open>The client count\<close>

lemma spawn_clients_none: "n \<le> i \<Longrightarrow> spawn_clients i n s = s"
  by simp

text \<open>
  C10, as stated, has every negative \<^verbatim>\<open>numClients\<close> panic. It does not. On a
  fresh wait group, \<^verbatim>\<open>numClients = -4294967296\<close> adds nothing to the 32 bits of the
  counter: nothing panics, no client is started, and the counter stays 0. And
  the counter is the caller's: on a wait group that already counts 5,
  \<^verbatim>\<open>numClients = -3\<close> lowers it to 2 without a panic.
\<close>

theorem negative_numClients_without_panic_counterexample:
  "crashed (SimulateMultipleClientAborts (- 4294967296) (start pool_world)) = None
   \<and> wg (SimulateMultipleClientAborts (- 4294967296) (start pool_world)) = 0
   \<and> clients (SimulateMultipleClientAborts (- 4294967296) (start pool_world)) = []
   \<and> crashed (SimulateMultipleClientAborts (- 3) ((start pool_world)\<lparr>wg := 5\<rparr>)) = None
   \<and> wg (SimulateMultipleClientAborts (- 3) ((start pool_world)\<lparr>wg := 5\<rparr>)) = 2
   \<and> clients (SimulateMultipleClientAborts (- 3) ((start pool_world)\<lparr>wg := 5\<rparr>)) = []"
  by (simp add: SimulateMultipleClientAborts_def Let_def wg_Add_def int32_def start_def)

text \<open>
  C10, amended. \<^verbatim>\<open>SimulateMultipleClientAborts\<close> does not check \<^verbatim>\<open>numClients\<close>. With 0
  it logs its line, starts no client and leaves the counter as it is, so that a
  caller waiting on a counter of zero goes on at once. With a negative number
  it starts no client, and it panics exactly when the sum of the counter and
  \<^verbatim>\<open>numClients\<close>, wrapped to 32 bits, is negative; otherwise the counter becomes
  that sum. On a fresh wait group it panics for every \<^verbatim>\<open>numClients\<close> from
  \<open>- 2 ^ 31\<close> to \<open>- 1\<close>.
\<close>

theorem SimulateMultipleClientAborts_nonpositive_numClients:
  "(int (wg s) < 2147483648 \<longrightarrow>
      SimulateMultipleClientAborts 0 s =
        s\<lparr>sys_world := emit (Printf ''Simulating %d client aborts'' [ArgInt 0]) (sys_world s)\<rparr>)
   \<and> (wg s = 0 \<longrightarrow>
        caller (caller_step sc ((SimulateMultipleClientAborts 0 s)\<lparr>caller := CallerWait\<rparr>)) =
          CallerPrintStats)
   \<and> (n < 0 \<longrightarrow>
        SimulateMultipleClientAborts n s =
          (if int32 (int (wg s) + n) < 0
           then panic_with NegativeWaitGroupCounter
                  (s\<lparr>sys_world := emit (Printf ''Simulating %d client aborts'' [ArgInt n]) (sys_world s)\<rparr>)
           else s\<lparr>sys_world := emit (Printf ''Simulating %d client aborts'' [ArgInt n]) (sys_world s),
                  wg := nat (int32 (int (wg s) + n))\<rparr>))
   \<and> (- 2147483648 \<le> n \<and> n < 0 \<and> wg s = 0 \<longrightarrow>
        crashed (SimulateMultipleClientAborts n s) = Some NegativeWaitGroupCounter
        \<and> clients (SimulateMultipleClientAborts n s) = clients s)"
proof -
  have zero: "int (wg s) < 2147483648 \<Longrightarrow> wg_Add 0 (wg s) = Inr (wg s)"
    using wg_Add_ok [of "wg s" 0] by simp
  have a: "int (wg s) < 2147483648 \<longrightarrow>
      SimulateMultipleClientAborts 0 s =
        s\<lparr>sys_world := emit (Printf ''Simulating %d client aborts'' [ArgInt 0]) (sys_world s)\<rparr>"
    by (simp add: SimulateMultipleClientAborts_def Let_def zero)
  have b: "wg s = 0 \<longrightarrow>
        caller (caller_step sc ((SimulateMultipleClientAborts 0 s)\<lparr>caller := CallerWait\<rparr>)) =
          CallerPrintStats"
    using wg_Add_ok [of 0 0] by (simp add: SimulateMultipleClientAborts_def Let_def caller_step_def)
  have c: "n < 0 \<longrightarrow>
        SimulateMultipleClientAborts n s =
          (if int32 (int (wg s) + n) < 0
           then panic_with NegativeWaitGroupCounter
                  (s\<lparr>sys_world := emit (Printf ''Simulating %d client aborts'' [ArgInt n]) (sys_world s)\<rparr>)
           else s\<lparr>sys_world := emit (Printf ''Simulating %d client aborts'' [ArgInt n]) (sys_world s),
                  wg := nat (int32 (int (wg s) + n))\<rparr>)"
    by (simp add: SimulateMultipleClientAborts_def Let_def wg_Add_def)
  have d: "- 2147483648 \<le> n \<and> n < 0 \<and> wg s = 0 \<longrightarrow>
        crashed (SimulateMultipleClientAborts n s) = Some NegativeWaitGroupCounter
        \<and> clients (SimulateMultipleClientAborts n s) = clients s"
    using wg_Add_panic [of "wg s" n]
    by (auto simp: SimulateMultipleClientAborts_def Let_def panic_with_def)
  show ?thesis
    using a b c d by blast
qed

theorem SimulateMultipleClientAborts_nonpositive_witness:
  "SimulateMultipleClientAborts 0 (start pool_world) =
     (start pool_world)\<lparr>sys_world := emit (Printf ''Simulating %d client aborts'' [ArgInt 0])
                                       (sys_world (start pool_world))\<rparr>
   \<and> caller (caller_step one_client
        ((SimulateMultipleClientAborts 0 (start pool_world))\<lparr>caller := CallerWait\<rparr>)) =
          CallerPrintStats
   \<and> crashed (SimulateMultipleClientAborts (- 1) (start pool_world)) = Some NegativeWaitGroupCounter
   \<and> clients (SimulateMultipleClientAborts (- 1) (start pool_world)) = []"
proof -
  have z: "wg (start pool_world) = 0" and c: "clients (start pool_world) = []"
    and b: "int (wg (start pool_world)) < 2147483648"
    by (simp_all add: start_def)
  have n: "(- 1 :: int) < 0" and m: "- 2147483648 \<le> (- 1 :: int)"
    by simp_all
  show ?thesis
    using SimulateMultipleClientAborts_nonpositive_numClients [of "start pool_world" one_client "- 1"]
      z c b n m by metis
qed

end
